theory Spec2Isabelle
  imports Main "HOL-Library.Word"
begin

unbundle bit_operations_syntax

section \<open>The CUPTI tracer of torch/csrc/cupti\_tracer.cpp\<close>

text \<open>
  The file embeds \<^verbatim>\<open>src/torch/csrc/cupti_tracer.cpp\<close>: the singleton \<^verbatim>\<open>Tracer\<close>, its
  \<^verbatim>\<open>CUptiManager\<close> and the two buffer callbacks. The CUPTI library itself is not part
  of the repository; every answer it gives (the status of a call, the subscriber handle,
  the raw records its cursor yields, the buffers it hands back during a flush) and the
  address chosen by \<^verbatim>\<open>malloc\<close> are parameters of the model. Output on stdout and stderr
  is not modelled. Pointers and \<^verbatim>\<open>size_t\<close> are 64 bits wide.
\<close>

subsection \<open>Types of the provider interface\<close>

type_synonym u32 = "32 word"
type_synonym u64 = "64 word"
type_synonym ptr = "64 word"
type_synonym size_t = "64 word"

text \<open>
  \<^verbatim>\<open>CUptiResult\<close>: the two statuses the source names, and every other status by its
  number.
\<close>

datatype CUptiResult =
    CUPTI_SUCCESS
  | CUPTI_ERROR_MAX_LIMIT_REACHED
  | CUPTI_ERROR_OTHER nat

text \<open>
  \<^verbatim>\<open>CUpti_ActivityKind\<close>: the kinds the source names, and every other kind by its number.
\<close>

datatype CUpti_ActivityKind =
    CUPTI_ACTIVITY_KIND_CONTEXT
  | CUPTI_ACTIVITY_KIND_DRIVER
  | CUPTI_ACTIVITY_KIND_RUNTIME
  | CUPTI_ACTIVITY_KIND_MEMCPY
  | CUPTI_ACTIVITY_KIND_MEMSET
  | CUPTI_ACTIVITY_KIND_NAME
  | CUPTI_ACTIVITY_KIND_MARKER
  | CUPTI_ACTIVITY_KIND_KERNEL
  | CUPTI_ACTIVITY_KIND_OVERHEAD
  | CUPTI_ACTIVITY_KIND_CONCURRENT_KERNEL
  | CUPTI_ACTIVITY_KIND_OTHER nat

datatype CUpti_CallbackDomain =
    CUPTI_CB_DOMAIN_DRIVER_API
  | CUPTI_CB_DOMAIN_RUNTIME_API
  | CUPTI_CB_DOMAIN_OTHER nat

datatype CUpti_CallbackId =
    CUPTI_DRIVER_TRACE_CBID_cuLaunchKernel
  | CUPTI_DRIVER_TRACE_CBID_cuLaunchKernel_ptsz
  | CUPTI_RUNTIME_TRACE_CBID_cudaLaunch_v3020
  | CUPTI_CBID_OTHER nat

type_synonym CUpti_SubscriberHandle = nat

text \<open>The fields of \<^verbatim>\<open>CUpti_ActivityAPI\<close> that the source reads.\<close>

record CUpti_ActivityAPI =
  api_cbid :: u32
  api_start :: u64
  api_end :: u64
  api_processId :: u32
  api_threadId :: u32
  api_correlationId :: u32

text \<open>The fields of \<^verbatim>\<open>CUpti_ActivityKernel4\<close> that the source reads.\<close>

record CUpti_ActivityKernel4 =
  k_name :: string
  k_start :: u64
  k_end :: u64
  k_deviceId :: u32
  k_contextId :: u32
  k_streamId :: u32
  k_correlationId :: u32
  k_gridX :: u32
  k_gridY :: u32
  k_gridZ :: u32
  k_blockX :: u32
  k_blockY :: u32
  k_blockZ :: u32
  k_staticSharedMemory :: u32
  k_dynamicSharedMemory :: u32

text \<open>
  A raw record \<^verbatim>\<open>CUpti_Activity\<close>: its kind, and what each of the two
  \<^verbatim>\<open>reinterpret_cast\<close>s of the source reads from its bytes. Nothing ties the two views
  to the kind: the source casts on the kind alone.
\<close>

record CUpti_Activity =
  kind :: CUpti_ActivityKind
  as_api :: CUpti_ActivityAPI
  as_kernel :: CUpti_ActivityKernel4

subsection \<open>Record and the process state\<close>

text \<open>\<^verbatim>\<open>Tracer::Record\<close>, with the field \<^verbatim>\<open>kind\<close> named \<open>rkind\<close> and so on.\<close>

record Record =
  rkind :: string
  rname :: string
  rstart :: u64
  rend :: u64
  processId :: u32
  threadId :: u32
  correlationId :: u32

text \<open>The calls made to the provider, as they are logged in the process state.\<close>

datatype cupti_call =
    cuptiActivityRegisterCallbacks
  | cuptiActivityEnable CUpti_ActivityKind
  | cuptiActivityDisable CUpti_ActivityKind
  | cuptiSubscribe
  | cuptiUnsubscribe CUpti_SubscriberHandle
  | cuptiEnableCallback u32 CUpti_SubscriberHandle CUpti_CallbackDomain CUpti_CallbackId
  | cuptiActivityFlushAll u32

text \<open>
  The process: the members \<^verbatim>\<open>records_\<close> and \<^verbatim>\<open>subscriber_\<close> of the one \<^verbatim>\<open>Tracer\<close>
  (here \<open>records\<close> and \<open>subscriber\<close>),
  the blocks of the C heap that are live with their sizes, the arguments of every call of
  \<^verbatim>\<open>free\<close> in order, whether some \<^verbatim>\<open>free\<close> was given an address that is no live block
  (undefined behaviour in C), and the provider calls made so far in order.
\<close>

record proc =
  records :: "Record list"
  subscriber :: CUpti_SubscriberHandle
  blocks :: "ptr \<rightharpoonup> size_t"
  freed :: "ptr list"
  bad_free :: bool
  calls :: "cupti_call list"

text \<open>\<^verbatim>\<open>exit(-1)\<close> is the only way the source gives up.\<close>

datatype error = Exit

subsection \<open>Tracer::ActivityCallback and Tracer::get\_records\<close>

definition push_back :: "Record \<Rightarrow> proc \<Rightarrow> proc" where
  "push_back r s = s\<lparr>records := records s @ [r]\<rparr>"

text \<open>
  The \<^verbatim>\<open>switch\<close> on \<^verbatim>\<open>record.kind\<close>; it has no \<^verbatim>\<open>default\<close>, so every other kind falls
  through with nothing done.
\<close>

definition ActivityCallback :: "proc \<Rightarrow> CUpti_Activity \<Rightarrow> proc" where
  "ActivityCallback s record =
     (case kind record of
        CUPTI_ACTIVITY_KIND_DRIVER \<Rightarrow>
          (let api = as_api record in
           push_back \<lparr>rkind = ''DRIVER'', rname = '''',
                      rstart = api_start api, rend = api_end api,
                      processId = api_processId api, threadId = api_threadId api,
                      correlationId = api_correlationId api\<rparr> s)
      | CUPTI_ACTIVITY_KIND_RUNTIME \<Rightarrow>
          (let api = as_api record in
           push_back \<lparr>rkind = ''RUNTIME'', rname = '''',
                      rstart = api_start api, rend = api_end api,
                      processId = api_processId api, threadId = api_threadId api,
                      correlationId = api_correlationId api\<rparr> s)
      | CUPTI_ACTIVITY_KIND_KERNEL \<Rightarrow>
          (let kernel = as_kernel record;
               kindString = (if kind record = CUPTI_ACTIVITY_KIND_KERNEL
                             then ''KERNEL'' else ''CONC KERNEL'') in
           push_back \<lparr>rkind = kindString, rname = k_name kernel,
                      rstart = k_start kernel, rend = k_end kernel,
                      processId = k_deviceId kernel, threadId = k_streamId kernel,
                      correlationId = k_correlationId kernel\<rparr> s)
      | CUPTI_ACTIVITY_KIND_CONCURRENT_KERNEL \<Rightarrow>
          (let kernel = as_kernel record;
               kindString = (if kind record = CUPTI_ACTIVITY_KIND_KERNEL
                             then ''KERNEL'' else ''CONC KERNEL'') in
           push_back \<lparr>rkind = kindString, rname = k_name kernel,
                      rstart = k_start kernel, rend = k_end kernel,
                      processId = k_deviceId kernel, threadId = k_streamId kernel,
                      correlationId = k_correlationId kernel\<rparr> s)
      | _ \<Rightarrow> s)"

definition get_records :: "proc \<Rightarrow> Record list" where
  "get_records s = records s"

subsection \<open>The C heap: malloc and free\<close>

text \<open>
  \<^verbatim>\<open>malloc(n)\<close>, given the address \<open>a\<close> the allocator answers with (0 is \<^verbatim>\<open>NULL\<close>):
  a block of \<open>n\<close> bytes at \<open>a\<close> becomes live. The C library has the block lie within the
  address space and its address aligned for every object type, a multiple of 8 on the
  64-bit targets; a statement that rests on either says so.
\<close>

definition malloc :: "size_t \<Rightarrow> ptr \<Rightarrow> proc \<Rightarrow> ptr \<times> proc" where
  "malloc n a s = (if a = 0 then (0, s) else (a, s\<lparr>blocks := (blocks s)(a \<mapsto> n)\<rparr>))"

text \<open>
  \<^verbatim>\<open>free(p)\<close>: nothing for \<^verbatim>\<open>NULL\<close>; the block at \<open>p\<close> stops being live; an address
  that is not the start of a live block is recorded in \<open>bad_free\<close>.
\<close>

definition free :: "ptr \<Rightarrow> proc \<Rightarrow> proc" where
  "free p s =
     (let s' = s\<lparr>freed := freed s @ [p]\<rparr> in
      if p = 0 then s'
      else (case blocks s p of
              Some n \<Rightarrow> s'\<lparr>blocks := (blocks s)(p := None)\<rparr>
            | None \<Rightarrow> s'\<lparr>bad_free := True\<rparr>))"

subsection \<open>The macros\<close>

definition BUF_SIZE :: size_t where
  "BUF_SIZE = 32 * 1024"

definition ALIGN_SIZE :: size_t where
  "ALIGN_SIZE = 8"

definition ALIGN_BUFFER :: "ptr \<Rightarrow> 64 word \<Rightarrow> ptr" where
  "ALIGN_BUFFER buffer align =
     (if (buffer AND (align - 1)) \<noteq> 0
      then buffer + align - (buffer AND (align - 1))
      else buffer)"

text \<open>
  \<^verbatim>\<open>CUPTI_CALL(call)\<close>: the status of the call is looked at, and anything but success
  ends the process.
\<close>

definition CUPTI_CALL :: "CUptiResult \<times> 'a \<Rightarrow> error + 'a" where
  "CUPTI_CALL r = (case r of (status, s) \<Rightarrow>
     if status \<noteq> CUPTI_SUCCESS then Inl Exit else Inr s)"

subsection \<open>The provider\<close>

text \<open>
  What the provider answers: the status of a call, given the calls made before it, and
  the handle \<^verbatim>\<open>cuptiSubscribe\<close> writes.
\<close>

record provider =
  pv_status :: "cupti_call list \<Rightarrow> cupti_call \<Rightarrow> CUptiResult"
  pv_handle :: "cupti_call list \<Rightarrow> CUpti_SubscriberHandle"

definition cupti :: "provider \<Rightarrow> cupti_call \<Rightarrow> proc \<Rightarrow> CUptiResult \<times> proc" where
  "cupti pv c s = (pv_status pv (calls s) c, s\<lparr>calls := calls s @ [c]\<rparr>)"

text \<open>\<^verbatim>\<open>cuptiSubscribe(&subscriber_, APICallback, this)\<close> also writes the handle.\<close>

definition cupti_subscribe :: "provider \<Rightarrow> proc \<Rightarrow> CUptiResult \<times> proc" where
  "cupti_subscribe pv s =
     (case cupti pv cuptiSubscribe s of
        (status, s') \<Rightarrow> (status, s'\<lparr>subscriber := pv_handle pv (calls s)\<rparr>))"

text \<open>
  The cursor \<^verbatim>\<open>cuptiActivityGetNextRecord\<close> over one completed buffer: the status and the
  record of its \<open>n\<close>-th call on that buffer. The record counts on success only.
\<close>

type_synonym cursor = "nat \<Rightarrow> CUptiResult \<times> CUpti_Activity"

subsection \<open>CUptiManager\<close>

text \<open>
  The answer of the buffer-request callback: \<^verbatim>\<open>*buffer\<close>, \<^verbatim>\<open>*size\<close>, \<^verbatim>\<open>*maxNumRecords\<close>.
  The parameter \<^verbatim>\<open>size\<close> of the buffer-completed callback is \<open>sz\<close> below.
\<close>

type_synonym request = "ptr \<times> size_t \<times> size_t"

definition InternalBufferRequested :: "ptr \<Rightarrow> proc \<Rightarrow> error + request \<times> proc" where
  "InternalBufferRequested a s =
     (case malloc (BUF_SIZE + ALIGN_SIZE) a s of
        (bfr, s') \<Rightarrow>
          if bfr = 0 then Inl Exit
          else Inr ((ALIGN_BUFFER bfr ALIGN_SIZE, BUF_SIZE, 0), s'))"

text \<open>
  The \<^verbatim>\<open>do ... while (1)\<close> of the buffer-completed handler, from the \<open>n\<close>-th call of the
  cursor on. It runs for as long as the cursor answers with success, so it is partial.
\<close>

partial_function (option) record_loop :: "cursor \<Rightarrow> nat \<Rightarrow> proc \<Rightarrow> (error + proc) option" where
  "record_loop cur n s =
     (case cur n of (status, record) \<Rightarrow>
        if status = CUPTI_SUCCESS
        then record_loop cur (Suc n) (ActivityCallback s record)
        else if status = CUPTI_ERROR_MAX_LIMIT_REACHED then Some (Inr s)
        else (case CUPTI_CALL (status, s) of
                Inl e \<Rightarrow> Some (Inl e)
              | Inr s' \<Rightarrow> record_loop cur (Suc n) s'))"

definition InternalBufferCompleted ::
  "nat \<Rightarrow> u32 \<Rightarrow> ptr \<Rightarrow> size_t \<Rightarrow> size_t \<Rightarrow> cursor \<Rightarrow> proc \<Rightarrow> (error + proc) option" where
  "InternalBufferCompleted ctx streamId buffer sz validSize cur s =
     (case (if validSize > 0 then record_loop cur 0 s else Some (Inr s)) of
        None \<Rightarrow> None
      | Some (Inl e) \<Rightarrow> Some (Inl e)
      | Some (Inr s') \<Rightarrow> Some (Inr (free buffer s')))"

text \<open>The static trampolines forward to the one manager.\<close>

definition BufferRequested :: "ptr \<Rightarrow> proc \<Rightarrow> error + request \<times> proc" where
  "BufferRequested a s = InternalBufferRequested a s"

definition BufferCompleted ::
  "nat \<Rightarrow> u32 \<Rightarrow> ptr \<Rightarrow> size_t \<Rightarrow> size_t \<Rightarrow> cursor \<Rightarrow> proc \<Rightarrow> (error + proc) option" where
  "BufferCompleted ctx streamId buffer sz validSize cur s =
     InternalBufferCompleted ctx streamId buffer sz validSize cur s"

text \<open>\<^verbatim>\<open>Initialize\<close> registers the two callbacks; the status is not looked at.\<close>

definition Initialize :: "provider \<Rightarrow> proc \<Rightarrow> proc" where
  "Initialize pv s = snd (cupti pv cuptiActivityRegisterCallbacks s)"

subsection \<open>Tracer\<close>

text \<open>
  The constructor, in a process that has made no provider call and has no block of this
  file live. The member \<^verbatim>\<open>subscriber_\<close> is not initialised: \<open>h0\<close> is whatever it holds.
\<close>

definition Tracer :: "provider \<Rightarrow> CUpti_SubscriberHandle \<Rightarrow> proc" where
  "Tracer pv h0 =
     Initialize pv \<lparr>records = [], subscriber = h0, blocks = Map.empty, freed = [],
                    bad_free = False, calls = []\<rparr>"

text \<open>Statements in sequence, up to the first that ends the process.\<close>

fun seq :: "(proc \<Rightarrow> error + proc) list \<Rightarrow> proc \<Rightarrow> error + proc" where
  "seq [] s = Inr s"
| "seq (f # fs) s = (case f s of Inl e \<Rightarrow> Inl e | Inr s' \<Rightarrow> seq fs s')"

definition start :: "provider \<Rightarrow> proc \<Rightarrow> error + proc" where
  "start pv = seq
     [\<lambda>s. CUPTI_CALL (cupti pv (cuptiActivityEnable CUPTI_ACTIVITY_KIND_CONTEXT) s),
      \<lambda>s. CUPTI_CALL (cupti pv (cuptiActivityEnable CUPTI_ACTIVITY_KIND_DRIVER) s),
      \<lambda>s. CUPTI_CALL (cupti pv (cuptiActivityEnable CUPTI_ACTIVITY_KIND_RUNTIME) s),
      \<lambda>s. CUPTI_CALL (cupti pv (cuptiActivityEnable CUPTI_ACTIVITY_KIND_MEMCPY) s),
      \<lambda>s. CUPTI_CALL (cupti pv (cuptiActivityEnable CUPTI_ACTIVITY_KIND_MEMSET) s),
      \<lambda>s. CUPTI_CALL (cupti pv (cuptiActivityEnable CUPTI_ACTIVITY_KIND_NAME) s),
      \<lambda>s. CUPTI_CALL (cupti pv (cuptiActivityEnable CUPTI_ACTIVITY_KIND_MARKER) s),
      \<lambda>s. CUPTI_CALL (cupti pv (cuptiActivityEnable CUPTI_ACTIVITY_KIND_KERNEL) s),
      \<lambda>s. CUPTI_CALL (cupti pv (cuptiActivityEnable CUPTI_ACTIVITY_KIND_OVERHEAD) s),
      \<lambda>s. CUPTI_CALL (cupti_subscribe pv s),
      \<lambda>s. CUPTI_CALL (cupti pv (cuptiEnableCallback 1 (subscriber s)
             CUPTI_CB_DOMAIN_DRIVER_API CUPTI_DRIVER_TRACE_CBID_cuLaunchKernel) s),
      \<lambda>s. CUPTI_CALL (cupti pv (cuptiEnableCallback 1 (subscriber s)
             CUPTI_CB_DOMAIN_DRIVER_API CUPTI_DRIVER_TRACE_CBID_cuLaunchKernel_ptsz) s),
      \<lambda>s. CUPTI_CALL (cupti pv (cuptiEnableCallback 1 (subscriber s)
             CUPTI_CB_DOMAIN_RUNTIME_API CUPTI_RUNTIME_TRACE_CBID_cudaLaunch_v3020) s)]"

text \<open>
  One buffer the provider hands back: the arguments of \<^verbatim>\<open>BufferCompleted\<close> and what the
  cursor yields on it.
\<close>

type_synonym delivery = "nat \<times> u32 \<times> ptr \<times> size_t \<times> size_t \<times> cursor"

fun deliver :: "delivery list \<Rightarrow> proc \<Rightarrow> (error + proc) option" where
  "deliver [] s = Some (Inr s)"
| "deliver ((ctx, streamId, buffer, sz, validSize, cur) # ds) s =
     (case BufferCompleted ctx streamId buffer sz validSize cur s of
        None \<Rightarrow> None
      | Some (Inl e) \<Rightarrow> Some (Inl e)
      | Some (Inr s') \<Rightarrow> deliver ds s')"

text \<open>
  \<^verbatim>\<open>cuptiActivityFlushAll(0)\<close>: within the call the provider hands back the buffers
  \<open>ds\<close> through \<^verbatim>\<open>BufferCompleted\<close>, then answers with its status.
\<close>

definition cupti_flush_all ::
  "provider \<Rightarrow> delivery list \<Rightarrow> proc \<Rightarrow> (error + CUptiResult \<times> proc) option" where
  "cupti_flush_all pv ds s =
     (case cupti pv (cuptiActivityFlushAll 0) s of
        (status, s1) \<Rightarrow>
          (case deliver ds s1 of
             None \<Rightarrow> None
           | Some (Inl e) \<Rightarrow> Some (Inl e)
           | Some (Inr s2) \<Rightarrow> Some (Inr (status, s2))))"

definition stop :: "provider \<Rightarrow> delivery list \<Rightarrow> proc \<Rightarrow> (error + proc) option" where
  "stop pv ds s =
     (case seq
        [\<lambda>s. CUPTI_CALL (cupti pv (cuptiActivityDisable CUPTI_ACTIVITY_KIND_CONTEXT) s),
         \<lambda>s. CUPTI_CALL (cupti pv (cuptiActivityDisable CUPTI_ACTIVITY_KIND_DRIVER) s),
         \<lambda>s. CUPTI_CALL (cupti pv (cuptiActivityDisable CUPTI_ACTIVITY_KIND_RUNTIME) s),
         \<lambda>s. CUPTI_CALL (cupti pv (cuptiActivityDisable CUPTI_ACTIVITY_KIND_MEMCPY) s),
         \<lambda>s. CUPTI_CALL (cupti pv (cuptiActivityDisable CUPTI_ACTIVITY_KIND_MEMSET) s),
         \<lambda>s. CUPTI_CALL (cupti pv (cuptiActivityDisable CUPTI_ACTIVITY_KIND_NAME) s),
         \<lambda>s. CUPTI_CALL (cupti pv (cuptiActivityDisable CUPTI_ACTIVITY_KIND_MARKER) s),
         \<lambda>s. CUPTI_CALL (cupti pv (cuptiActivityDisable CUPTI_ACTIVITY_KIND_KERNEL) s),
         \<lambda>s. CUPTI_CALL (cupti pv (cuptiActivityDisable CUPTI_ACTIVITY_KIND_OVERHEAD) s),
         \<lambda>s. CUPTI_CALL (cupti pv (cuptiUnsubscribe (subscriber s)) s)] s of
        Inl e \<Rightarrow> Some (Inl e)
      | Inr s1 \<Rightarrow>
          (case cupti_flush_all pv ds s1 of
             None \<Rightarrow> None
           | Some (Inl e) \<Rightarrow> Some (Inl e)
           | Some (Inr r) \<Rightarrow> Some (CUPTI_CALL r)))"

text \<open>The \<^verbatim>\<open>switch\<close> on the domain has two cases, both empty.\<close>

definition APICallback ::
  "proc \<Rightarrow> CUpti_CallbackDomain \<Rightarrow> CUpti_CallbackId \<Rightarrow> 'cbdata \<Rightarrow> proc" where
  "APICallback s domain cbid cbdata =
     (case domain of
        CUPTI_CB_DOMAIN_RUNTIME_API \<Rightarrow> s
      | CUPTI_CB_DOMAIN_DRIVER_API \<Rightarrow> s
      | _ \<Rightarrow> s)"

subsection \<open>Sessions\<close>

text \<open>
  What can happen to the process once the tracer exists: the application calls
  \<^verbatim>\<open>start\<close> or \<^verbatim>\<open>stop\<close> (the provider handing back buffers during the flush), and the
  provider calls one of the three callbacks.
\<close>

datatype event =
    Ev_start
  | Ev_stop "delivery list"
  | Ev_APICallback CUpti_CallbackDomain CUpti_CallbackId
  | Ev_BufferRequested ptr
  | Ev_BufferCompleted delivery

fun step :: "provider \<Rightarrow> event \<Rightarrow> proc \<Rightarrow> (error + proc) option" where
  "step pv Ev_start s = Some (start pv s)"
| "step pv (Ev_stop ds) s = stop pv ds s"
| "step pv (Ev_APICallback domain cbid) s = Some (Inr (APICallback s domain cbid ()))"
| "step pv (Ev_BufferRequested a) s =
     (case BufferRequested a s of Inl e \<Rightarrow> Some (Inl e) | Inr (r, s') \<Rightarrow> Some (Inr s'))"
| "step pv (Ev_BufferCompleted (ctx, streamId, buffer, sz, validSize, cur)) s =
     BufferCompleted ctx streamId buffer sz validSize cur s"

fun run :: "provider \<Rightarrow> event list \<Rightarrow> proc \<Rightarrow> (error + proc) option" where
  "run pv [] s = Some (Inr s)"
| "run pv (ev # evs) s =
     (case step pv ev s of
        None \<Rightarrow> None
      | Some (Inl e) \<Rightarrow> Some (Inl e)
      | Some (Inr s') \<Rightarrow> run pv evs s')"

subsection \<open>Notions used in the statements\<close>

text \<open>The state after the records the cursor yields at its calls \<open>n\<close> up to \<open>k - 1\<close>.\<close>

definition decoded :: "cursor \<Rightarrow> nat \<Rightarrow> nat \<Rightarrow> proc \<Rightarrow> proc" where
  "decoded cur n k s = foldl ActivityCallback s (map (\<lambda>i. snd (cur i)) [n..<k])"

text \<open>How the loop ends on a status that is not success.\<close>

definition loop_end :: "CUptiResult \<Rightarrow> proc \<Rightarrow> error + proc" where
  "loop_end status s = (if status = CUPTI_ERROR_MAX_LIMIT_REACHED then Inr s else Inl Exit)"

text \<open>The four kinds the \<^verbatim>\<open>switch\<close> of \<^verbatim>\<open>ActivityCallback\<close> has a case for.\<close>

definition decoded_kinds :: "CUpti_ActivityKind set" where
  "decoded_kinds = {CUPTI_ACTIVITY_KIND_DRIVER, CUPTI_ACTIVITY_KIND_RUNTIME,
                    CUPTI_ACTIVITY_KIND_KERNEL, CUPTI_ACTIVITY_KIND_CONCURRENT_KERNEL}"

text \<open>
  A raw record whose end is not before its start, in the view the source reads for its
  kind.
\<close>

definition raw_ok :: "CUpti_Activity \<Rightarrow> bool" where
  "raw_ok r =
     (if kind r = CUPTI_ACTIVITY_KIND_DRIVER \<or> kind r = CUPTI_ACTIVITY_KIND_RUNTIME
      then api_start (as_api r) \<le> api_end (as_api r)
      else if kind r = CUPTI_ACTIVITY_KIND_KERNEL \<or> kind r = CUPTI_ACTIVITY_KIND_CONCURRENT_KERNEL
      then k_start (as_kernel r) \<le> k_end (as_kernel r)
      else True)"

text \<open>
  Every raw record that reaches \<^verbatim>\<open>ActivityCallback\<close> from a cursor, a buffer handed
  back, an event satisfies \<open>G\<close>.
\<close>

definition cursor_all :: "(CUpti_Activity \<Rightarrow> bool) \<Rightarrow> cursor \<Rightarrow> bool" where
  "cursor_all G cur = (\<forall>n. fst (cur n) = CUPTI_SUCCESS \<longrightarrow> G (snd (cur n)))"

fun delivery_all :: "(CUpti_Activity \<Rightarrow> bool) \<Rightarrow> delivery \<Rightarrow> bool" where
  "delivery_all G (ctx, streamId, buffer, sz, validSize, cur) = cursor_all G cur"

fun event_all :: "(CUpti_Activity \<Rightarrow> bool) \<Rightarrow> event \<Rightarrow> bool" where
  "event_all G (Ev_stop ds) = list_all (delivery_all G) ds"
| "event_all G (Ev_BufferCompleted d) = delivery_all G d"
| "event_all G _ = True"

text \<open>
  \<open>P\<close> holds of every record of the store; and: \<^verbatim>\<open>ActivityCallback\<close> on a raw record
  that satisfies \<open>G\<close> keeps it so.
\<close>

definition store_all :: "(Record \<Rightarrow> bool) \<Rightarrow> proc \<Rightarrow> bool" where
  "store_all P s = (\<forall>R\<in>set (records s). P R)"

definition keeps :: "(CUpti_Activity \<Rightarrow> bool) \<Rightarrow> (Record \<Rightarrow> bool) \<Rightarrow> bool" where
  "keeps G P = (\<forall>s r. G r \<longrightarrow> store_all P s \<longrightarrow> store_all P (ActivityCallback s r))"

text \<open>An event in which the provider hands back no buffer.\<close>

fun no_delivery :: "event \<Rightarrow> bool" where
  "no_delivery (Ev_stop ds) = (ds = [])"
| "no_delivery (Ev_BufferCompleted d) = False"
| "no_delivery _ = True"

text \<open>The categories enabled, and those disabled, in a log of provider calls, in order.\<close>

fun enabled_kinds :: "cupti_call list \<Rightarrow> CUpti_ActivityKind list" where
  "enabled_kinds [] = []"
| "enabled_kinds (cuptiActivityEnable k # cs) = k # enabled_kinds cs"
| "enabled_kinds (c # cs) = enabled_kinds cs"

fun disabled_kinds :: "cupti_call list \<Rightarrow> CUpti_ActivityKind list" where
  "disabled_kinds [] = []"
| "disabled_kinds (cuptiActivityDisable k # cs) = k # disabled_kinds cs"
| "disabled_kinds (c # cs) = disabled_kinds cs"

text \<open>A provider whose every call succeeds.\<close>

definition pv_ok :: provider where
  "pv_ok = \<lparr>pv_status = (\<lambda>log c. CUPTI_SUCCESS), pv_handle = (\<lambda>log. 1)\<rparr>"

text \<open>Raw records and cursors of the examples.\<close>

definition api_raw ::
  "CUpti_ActivityKind \<Rightarrow> u64 \<Rightarrow> u64 \<Rightarrow> u32 \<Rightarrow> u32 \<Rightarrow> u32 \<Rightarrow> CUpti_Activity" where
  "api_raw k st en pid tid corr =
     \<lparr>kind = k,
      as_api = \<lparr>api_cbid = 0, api_start = st, api_end = en, api_processId = pid,
                api_threadId = tid, api_correlationId = corr\<rparr>,
      as_kernel = \<lparr>k_name = [], k_start = 0, k_end = 0, k_deviceId = 0, k_contextId = 0,
                   k_streamId = 0, k_correlationId = 0, k_gridX = 0, k_gridY = 0,
                   k_gridZ = 0, k_blockX = 0, k_blockY = 0, k_blockZ = 0,
                   k_staticSharedMemory = 0, k_dynamicSharedMemory = 0\<rparr>\<rparr>"

definition kernel_raw ::
  "CUpti_ActivityKind \<Rightarrow> string \<Rightarrow> u64 \<Rightarrow> u64 \<Rightarrow> u32 \<Rightarrow> u32 \<Rightarrow> u32 \<Rightarrow> CUpti_Activity" where
  "kernel_raw k nm st en dev str corr =
     \<lparr>kind = k,
      as_api = \<lparr>api_cbid = 0, api_start = 0, api_end = 0, api_processId = 0,
                api_threadId = 0, api_correlationId = 0\<rparr>,
      as_kernel = \<lparr>k_name = nm, k_start = st, k_end = en, k_deviceId = dev, k_contextId = 0,
                   k_streamId = str, k_correlationId = corr, k_gridX = 1, k_gridY = 1,
                   k_gridZ = 1, k_blockX = 1, k_blockY = 1, k_blockZ = 1,
                   k_staticSharedMemory = 0, k_dynamicSharedMemory = 0\<rparr>\<rparr>"

text \<open>The cursor over a buffer that holds the records \<open>rs\<close> and nothing else.\<close>

definition cursor_of :: "CUpti_Activity list \<Rightarrow> cursor" where
  "cursor_of rs n =
     (if n < length rs then (CUPTI_SUCCESS, rs ! n)
      else (CUPTI_ERROR_MAX_LIMIT_REACHED,
            api_raw (CUPTI_ACTIVITY_KIND_OTHER 0) 0 0 0 0 0))"

text \<open>
  The cursor over a buffer that holds the records \<open>rs\<close> and is corrupt behind them: the
  status number \<open>e\<close> from then on.
\<close>

definition cursor_bad :: "CUpti_Activity list \<Rightarrow> nat \<Rightarrow> cursor" where
  "cursor_bad rs e n =
     (if n < length rs then (CUPTI_SUCCESS, rs ! n)
      else (CUPTI_ERROR_OTHER e,
            api_raw (CUPTI_ACTIVITY_KIND_OTHER 0) 0 0 0 0 0))"

text \<open>
  What \<^verbatim>\<open>get_records()\<close> answers, and the provider calls made, after the events \<open>evs\<close>
  on a fresh tracer, when they neither end the process nor run forever.
\<close>

definition session_records ::
  "provider \<Rightarrow> CUpti_SubscriberHandle \<Rightarrow> event list \<Rightarrow> Record list option" where
  "session_records pv h0 evs =
     (case run pv evs (Tracer pv h0) of Some (Inr s) \<Rightarrow> Some (get_records s) | _ \<Rightarrow> None)"

definition session_calls ::
  "provider \<Rightarrow> CUpti_SubscriberHandle \<Rightarrow> event list \<Rightarrow> cupti_call list option" where
  "session_calls pv h0 evs =
     (case run pv evs (Tracer pv h0) of Some (Inr s) \<Rightarrow> Some (calls s) | _ \<Rightarrow> None)"

text \<open>The categories \<^verbatim>\<open>start\<close> and \<^verbatim>\<open>stop\<close> name, in the order of the source lines.\<close>

definition session_kinds :: "CUpti_ActivityKind list" where
  "session_kinds =
     [CUPTI_ACTIVITY_KIND_CONTEXT, CUPTI_ACTIVITY_KIND_DRIVER, CUPTI_ACTIVITY_KIND_RUNTIME,
      CUPTI_ACTIVITY_KIND_MEMCPY, CUPTI_ACTIVITY_KIND_MEMSET, CUPTI_ACTIVITY_KIND_NAME,
      CUPTI_ACTIVITY_KIND_MARKER, CUPTI_ACTIVITY_KIND_KERNEL, CUPTI_ACTIVITY_KIND_OVERHEAD]"

text \<open>
  The process after \<^verbatim>\<open>start\<close> on a fresh tracer, and after \<^verbatim>\<open>stop\<close> then, when the provider
  \<open>pv_ok\<close> hands back no buffer.
\<close>

definition started :: proc where
  "started = (Tracer pv_ok 0)
     \<lparr>subscriber := 1,
      calls := cuptiActivityRegisterCallbacks # map cuptiActivityEnable session_kinds @
        [cuptiSubscribe,
         cuptiEnableCallback 1 1 CUPTI_CB_DOMAIN_DRIVER_API CUPTI_DRIVER_TRACE_CBID_cuLaunchKernel,
         cuptiEnableCallback 1 1 CUPTI_CB_DOMAIN_DRIVER_API
           CUPTI_DRIVER_TRACE_CBID_cuLaunchKernel_ptsz,
         cuptiEnableCallback 1 1 CUPTI_CB_DOMAIN_RUNTIME_API
           CUPTI_RUNTIME_TRACE_CBID_cudaLaunch_v3020]\<rparr>"

definition stopped :: proc where
  "stopped = started
     \<lparr>calls := calls started @ map cuptiActivityDisable session_kinds @
        [cuptiUnsubscribe 1, cuptiActivityFlushAll 0]\<rparr>"


section \<open>Properties\<close>

subsection \<open>ActivityCallback\<close>

lemma ActivityCallback_frame:
  "subscriber (ActivityCallback s r) = subscriber s"
  "blocks (ActivityCallback s r) = blocks s"
  "freed (ActivityCallback s r) = freed s"
  "bad_free (ActivityCallback s r) = bad_free s"
  "calls (ActivityCallback s r) = calls s"
  by (simp_all add: ActivityCallback_def push_back_def Let_def split: CUpti_ActivityKind.splits)

lemma ActivityCallback_other:
  "kind r \<notin> decoded_kinds \<Longrightarrow> ActivityCallback s r = s"
  by (cases "kind r") (simp_all add: ActivityCallback_def decoded_kinds_def)

lemma ActivityCallback_length:
  "length (records (ActivityCallback s r)) =
     length (records s) + (if kind r \<in> decoded_kinds then 1 else 0)"
  by (cases "kind r")
     (simp_all add: ActivityCallback_def decoded_kinds_def push_back_def Let_def)

lemma keeps_times: "keeps raw_ok (\<lambda>R. rstart R \<le> rend R)"
  unfolding keeps_def store_all_def
proof (intro allI impI)
  fix s :: proc and r
  assume "raw_ok r" and "\<forall>R\<in>set (records s). rstart R \<le> rend R"
  then show "\<forall>R\<in>set (records (ActivityCallback s r)). rstart R \<le> rend R"
    by (cases "kind r") (auto simp: ActivityCallback_def push_back_def Let_def raw_ok_def)
qed

lemma keeps_tags:
  "keeps (\<lambda>r. True) (\<lambda>R. rkind R \<in> {''DRIVER'', ''RUNTIME'', ''KERNEL'', ''CONC KERNEL''})"
  unfolding keeps_def store_all_def
proof (intro allI impI)
  fix s :: proc and r
  assume "\<forall>R\<in>set (records s). rkind R \<in> {''DRIVER'', ''RUNTIME'', ''KERNEL'', ''CONC KERNEL''}"
  then show "\<forall>R\<in>set (records (ActivityCallback s r)).
               rkind R \<in> {''DRIVER'', ''RUNTIME'', ''KERNEL'', ''CONC KERNEL''}"
    by (cases "kind r") (auto simp: ActivityCallback_def push_back_def Let_def)
qed


subsection \<open>Decoding a run of records\<close>

lemma foldl_frame:
  "subscriber (foldl ActivityCallback s rs) = subscriber s \<and>
   blocks (foldl ActivityCallback s rs) = blocks s \<and>
   freed (foldl ActivityCallback s rs) = freed s \<and>
   bad_free (foldl ActivityCallback s rs) = bad_free s \<and>
   calls (foldl ActivityCallback s rs) = calls s"
  by (induction rs arbitrary: s) (simp_all add: ActivityCallback_frame)

lemma foldl_length:
  "length (records (foldl ActivityCallback s rs)) =
     length (records s) + length (filter (\<lambda>r. kind r \<in> decoded_kinds) rs)"
  by (induction rs arbitrary: s) (simp_all add: ActivityCallback_length)

lemma foldl_keeps:
  "keeps G P \<Longrightarrow> \<forall>r\<in>set rs. G r \<Longrightarrow> store_all P s \<Longrightarrow>
   store_all P (foldl ActivityCallback s rs)"
proof (induction rs arbitrary: s)
  case Nil
  then show ?case by simp
next
  case (Cons r rs)
  from Cons.prems have "store_all P (ActivityCallback s r)" by (simp add: keeps_def)
  with Cons.prems show ?case by (simp only: foldl_Cons) (rule Cons.IH, simp_all)
qed

lemma decoded_same: "decoded cur n n s = s"
  by (simp add: decoded_def)

lemma decoded_first:
  "n < k \<Longrightarrow> decoded cur n k s = decoded cur (Suc n) k (ActivityCallback s (snd (cur n)))"
  by (simp add: decoded_def upt_conv_Cons)

lemma decoded_frame:
  "subscriber (decoded cur n k s) = subscriber s"
  "blocks (decoded cur n k s) = blocks s"
  "freed (decoded cur n k s) = freed s"
  "bad_free (decoded cur n k s) = bad_free s"
  "calls (decoded cur n k s) = calls s"
  by (simp_all add: decoded_def foldl_frame)

lemma decoded_keeps:
  assumes "keeps G P" and "cursor_all G cur"
    and "\<forall>i. n \<le> i \<and> i < k \<longrightarrow> fst (cur i) = CUPTI_SUCCESS"
    and "store_all P s"
  shows "store_all P (decoded cur n k s)"
  unfolding decoded_def
proof (rule foldl_keeps [OF assms(1)])
  show "\<forall>r\<in>set (map (\<lambda>i. snd (cur i)) [n..<k]). G r"
    using assms(2,3) by (auto simp: cursor_all_def)
qed (rule assms(4))

subsection \<open>The loop of the buffer-completed handler\<close>

lemma loop_success:
  "fst (cur n) = CUPTI_SUCCESS \<Longrightarrow>
   record_loop cur n s = record_loop cur (Suc n) (ActivityCallback s (snd (cur n)))"
  using record_loop.simps [of cur n s] by (cases "cur n") simp

lemma loop_stops:
  "fst (cur n) \<noteq> CUPTI_SUCCESS \<Longrightarrow> record_loop cur n s = Some (loop_end (fst (cur n)) s)"
  using record_loop.simps [of cur n s]
  by (cases "cur n") (simp add: CUPTI_CALL_def loop_end_def)

lemma loop_run:
  "n \<le> k \<Longrightarrow> \<forall>i. n \<le> i \<and> i < k \<longrightarrow> fst (cur i) = CUPTI_SUCCESS \<Longrightarrow>
   record_loop cur n s = record_loop cur k (decoded cur n k s)"
proof (induction "k - n" arbitrary: n s)
  case 0
  then show ?case by (simp add: decoded_same)
next
  case (Suc d)
  then have lt: "n < k" and ok: "fst (cur n) = CUPTI_SUCCESS" by auto
  have "record_loop cur (Suc n) (ActivityCallback s (snd (cur n)))
      = record_loop cur k (decoded cur (Suc n) k (ActivityCallback s (snd (cur n))))"
    using Suc by (intro Suc.hyps(1)) auto
  then show ?case
    using loop_success [of cur n s] ok decoded_first [OF lt, of cur s] by simp
qed

lemma loop_total:
  assumes "n \<le> k" and "\<forall>i. n \<le> i \<and> i < k \<longrightarrow> fst (cur i) = CUPTI_SUCCESS"
    and "fst (cur k) \<noteq> CUPTI_SUCCESS"
  shows "record_loop cur n s = Some (loop_end (fst (cur k)) (decoded cur n k s))"
  using loop_run [OF assms(1,2), of s] loop_stops [of cur k "decoded cur n k s"] assms(3)
  by simp

lemma loop_returns:
  assumes "record_loop cur n s = Some r"
  shows "\<exists>k\<ge>n. (\<forall>i. n \<le> i \<and> i < k \<longrightarrow> fst (cur i) = CUPTI_SUCCESS) \<and>
           fst (cur k) \<noteq> CUPTI_SUCCESS \<and> r = loop_end (fst (cur k)) (decoded cur n k s)"
  using assms
proof (induction rule: record_loop.raw_induct [rotated 1, consumes 1, case_names body])
  case (body f cur n s r)
  obtain status rec where c: "cur n = (status, rec)" by (cases "cur n")
  show ?case
  proof (cases "status = CUPTI_SUCCESS")
    case True
    with body(2) c have "f cur (Suc n) (ActivityCallback s rec) = Some r" by simp
    from body(1) [OF this]
    obtain k where k: "Suc n \<le> k"
      "\<forall>i. Suc n \<le> i \<and> i < k \<longrightarrow> fst (cur i) = CUPTI_SUCCESS"
      "fst (cur k) \<noteq> CUPTI_SUCCESS"
      "r = loop_end (fst (cur k)) (decoded cur (Suc n) k (ActivityCallback s rec))"
      by blast
    have "\<forall>i. n \<le> i \<and> i < k \<longrightarrow> fst (cur i) = CUPTI_SUCCESS"
    proof (intro allI impI)
      fix i assume "n \<le> i \<and> i < k"
      then have "i = n \<or> (Suc n \<le> i \<and> i < k)" by arith
      then show "fst (cur i) = CUPTI_SUCCESS"
      proof
        assume "i = n"
        with c True show ?thesis by simp
      next
        assume "Suc n \<le> i \<and> i < k"
        with k(2) show ?thesis by blast
      qed
    qed
    moreover have "r = loop_end (fst (cur k)) (decoded cur n k s)"
    proof -
      have "n < k" using k(1) by arith
      then have "decoded cur n k s = decoded cur (Suc n) k (ActivityCallback s (snd (cur n)))"
        by (rule decoded_first)
      also have "\<dots> = decoded cur (Suc n) k (ActivityCallback s rec)"
        by (simp only: c snd_conv)
      finally show ?thesis using k(4) by (simp only:)
    qed
    moreover have "n \<le> k" using k(1) by arith
    ultimately show ?thesis using k(3) by blast
  next
    case False
    with body(2) c have "r = loop_end status s"
      by (auto simp: CUPTI_CALL_def loop_end_def split: if_splits)
    with c False have "fst (cur n) \<noteq> CUPTI_SUCCESS \<and>
        r = loop_end (fst (cur n)) (decoded cur n n s)"
      by (simp add: decoded_same)
    then show ?thesis by (intro exI [of _ n]) auto
  qed
qed

lemma loop_terminates:
  assumes "n \<le> m" and "fst (cur m) \<noteq> CUPTI_SUCCESS"
  shows "\<exists>r. record_loop cur n s = Some r"
proof -
  define k where "k = (LEAST j. n \<le> j \<and> fst (cur j) \<noteq> CUPTI_SUCCESS)"
  have ex: "n \<le> m \<and> fst (cur m) \<noteq> CUPTI_SUCCESS" using assms by simp
  have k: "n \<le> k \<and> fst (cur k) \<noteq> CUPTI_SUCCESS"
    unfolding k_def by (rule LeastI [of _ m]) (rule ex)
  have "\<forall>i. n \<le> i \<and> i < k \<longrightarrow> fst (cur i) = CUPTI_SUCCESS"
  proof (intro allI impI)
    fix i assume i: "n \<le> i \<and> i < k"
    then have "\<not> (n \<le> i \<and> fst (cur i) \<noteq> CUPTI_SUCCESS)"
      unfolding k_def using not_less_Least by blast
    with i show "fst (cur i) = CUPTI_SUCCESS" by simp
  qed
  with k show ?thesis using loop_total [of n k cur s] by blast
qed

lemma loop_diverges:
  assumes "\<forall>m\<ge>n. fst (cur m) = CUPTI_SUCCESS"
  shows "record_loop cur n s = None"
proof (cases "record_loop cur n s")
  case None
  then show ?thesis .
next
  case (Some r)
  from loop_returns [OF this] assms show ?thesis by blast
qed


subsection \<open>malloc, free and the buffer callbacks\<close>

lemma free_frame:
  "records (free p s) = records s"
  "subscriber (free p s) = subscriber s"
  "calls (free p s) = calls s"
  "freed (free p s) = freed s @ [p]"
  by (simp_all add: free_def Let_def split: option.splits)

lemma free_store_all: "store_all P (free p s) = store_all P s"
  by (simp add: store_all_def free_frame)

lemma completed_returns:
  assumes "InternalBufferCompleted ctx streamId buffer sz validSize cur s = Some (Inr s')"
  shows "\<exists>k. (\<forall>i. i < k \<longrightarrow> fst (cur i) = CUPTI_SUCCESS) \<and>
             s' = free buffer (decoded cur 0 k s) \<and>
             (if validSize = 0 then k = 0 else fst (cur k) = CUPTI_ERROR_MAX_LIMIT_REACHED)"
proof (cases "validSize = 0")
  case True
  with assms have "s' = free buffer (decoded cur 0 0 s)"
    by (simp add: InternalBufferCompleted_def decoded_same)
  with True show ?thesis by (intro exI [of _ 0]) simp
next
  case False
  then have pos: "0 < validSize" by (simp add: word_greater_zero_iff)
  from assms pos obtain s1 where s1: "record_loop cur 0 s = Some (Inr s1)"
    and s': "s' = free buffer s1"
    by (auto simp: InternalBufferCompleted_def split: option.splits sum.splits)
  from loop_returns [OF s1]
  obtain k where k: "\<forall>i. 0 \<le> i \<and> i < k \<longrightarrow> fst (cur i) = CUPTI_SUCCESS"
    "Inr s1 = loop_end (fst (cur k)) (decoded cur 0 k s)"
    by blast
  from k(2) have "fst (cur k) = CUPTI_ERROR_MAX_LIMIT_REACHED \<and> s1 = decoded cur 0 k s"
    by (auto simp: loop_end_def split: if_splits)
  with k(1) s' False show ?thesis by (intro exI [of _ k]) simp
qed

lemma completed_frame:
  assumes "InternalBufferCompleted ctx streamId buffer sz validSize cur s = Some (Inr s')"
  shows "subscriber s' = subscriber s" and "calls s' = calls s"
    and "freed s' = freed s @ [buffer]"
  using completed_returns [OF assms] by (auto simp: free_frame decoded_frame)

lemma completed_keeps:
  assumes "InternalBufferCompleted ctx streamId buffer sz validSize cur s = Some (Inr s')"
    and "keeps G P" and "cursor_all G cur" and "store_all P s"
  shows "store_all P s'"
proof -
  from completed_returns [OF assms(1)]
  obtain k where k: "\<forall>i. i < k \<longrightarrow> fst (cur i) = CUPTI_SUCCESS"
    "s' = free buffer (decoded cur 0 k s)"
    by blast
  from k(1) have "\<forall>i. 0 \<le> i \<and> i < k \<longrightarrow> fst (cur i) = CUPTI_SUCCESS" by simp
  from decoded_keeps [OF assms(2,3) this assms(4)] k(2) show ?thesis
    by (simp add: free_store_all)
qed

lemma deliver_frame:
  "deliver ds s = Some (Inr s') \<Longrightarrow> subscriber s' = subscriber s \<and> calls s' = calls s"
proof (induction ds arbitrary: s)
  case Nil
  then show ?case by simp
next
  case (Cons d ds)
  obtain ctx streamId buffer sz validSize cur
    where d: "d = (ctx, streamId, buffer, sz, validSize, cur)" by (cases d)
  from Cons.prems d obtain s1
    where s1: "InternalBufferCompleted ctx streamId buffer sz validSize cur s = Some (Inr s1)"
      and rest: "deliver ds s1 = Some (Inr s')"
    by (auto simp: BufferCompleted_def split: option.splits sum.splits)
  from Cons.IH [OF rest] completed_frame [OF s1] show ?case by simp
qed

lemma deliver_keeps:
  "deliver ds s = Some (Inr s') \<Longrightarrow> keeps G P \<Longrightarrow> list_all (delivery_all G) ds \<Longrightarrow>
   store_all P s \<Longrightarrow> store_all P s'"
proof (induction ds arbitrary: s)
  case Nil
  then show ?case by simp
next
  case (Cons d ds)
  obtain ctx streamId buffer sz validSize cur
    where d: "d = (ctx, streamId, buffer, sz, validSize, cur)" by (cases d)
  from Cons.prems(1) d obtain s1
    where s1: "InternalBufferCompleted ctx streamId buffer sz validSize cur s = Some (Inr s1)"
      and rest: "deliver ds s1 = Some (Inr s')"
    by (auto simp: BufferCompleted_def split: option.splits sum.splits)
  from Cons.prems(3) d have "cursor_all G cur" and ds: "list_all (delivery_all G) ds"
    by simp_all
  from completed_keeps [OF s1 Cons.prems(2) this(1) Cons.prems(4)]
  have "store_all P s1" .
  from Cons.IH [OF rest Cons.prems(2) ds this] show ?case .
qed

lemma requested_frame:
  "InternalBufferRequested a s = Inr (r, s') \<Longrightarrow>
   records s' = records s \<and> subscriber s' = subscriber s \<and> calls s' = calls s \<and>
   freed s' = freed s \<and> bad_free s' = bad_free s"
  by (auto simp: InternalBufferRequested_def malloc_def split: if_splits)

lemma start_returns:
  assumes "start pv s = Inr s'"
  shows "s' = s\<lparr>subscriber := pv_handle pv (calls s @ map cuptiActivityEnable session_kinds),
               calls := calls s @ map cuptiActivityEnable session_kinds @
                 [cuptiSubscribe,
                  cuptiEnableCallback 1
                    (pv_handle pv (calls s @ map cuptiActivityEnable session_kinds))
                    CUPTI_CB_DOMAIN_DRIVER_API CUPTI_DRIVER_TRACE_CBID_cuLaunchKernel,
                  cuptiEnableCallback 1
                    (pv_handle pv (calls s @ map cuptiActivityEnable session_kinds))
                    CUPTI_CB_DOMAIN_DRIVER_API CUPTI_DRIVER_TRACE_CBID_cuLaunchKernel_ptsz,
                  cuptiEnableCallback 1
                    (pv_handle pv (calls s @ map cuptiActivityEnable session_kinds))
                    CUPTI_CB_DOMAIN_RUNTIME_API CUPTI_RUNTIME_TRACE_CBID_cudaLaunch_v3020]\<rparr>"
  using assms
  by (simp add: start_def CUPTI_CALL_def cupti_def cupti_subscribe_def session_kinds_def
           split: if_splits)

lemma stop_returns:
  assumes "stop pv ds s = Some (Inr s')"
  shows "deliver ds (s\<lparr>calls := calls s @ map cuptiActivityDisable session_kinds @
                  [cuptiUnsubscribe (subscriber s), cuptiActivityFlushAll 0]\<rparr>) = Some (Inr s')"
  using assms
  by (auto simp: stop_def CUPTI_CALL_def cupti_def cupti_flush_all_def session_kinds_def
           split: if_splits option.splits sum.splits prod.splits)


lemma start_frame:
  "start pv s = Inr s' \<Longrightarrow> records s' = records s \<and> freed s' = freed s \<and>
     blocks s' = blocks s \<and> bad_free s' = bad_free s"
  by (drule start_returns) simp

lemma stop_calls:
  assumes "stop pv ds s = Some (Inr s')"
  shows "calls s' = calls s @ map cuptiActivityDisable session_kinds @
           [cuptiUnsubscribe (subscriber s), cuptiActivityFlushAll 0]"
    and "subscriber s' = subscriber s"
  using deliver_frame [OF stop_returns [OF assms]] by simp_all

lemma stop_keeps:
  assumes "stop pv ds s = Some (Inr s')" and "keeps G P"
    and "list_all (delivery_all G) ds" and "store_all P s"
  shows "store_all P s'"
proof (rule deliver_keeps [OF stop_returns [OF assms(1)] assms(2,3)])
  show "store_all P (s\<lparr>calls := calls s @ map cuptiActivityDisable session_kinds @
          [cuptiUnsubscribe (subscriber s), cuptiActivityFlushAll 0]\<rparr>)"
    using assms(4) by (simp add: store_all_def)
qed

lemma stop_no_delivery:
  "stop pv [] s = Some (Inr s') \<Longrightarrow> records s' = records s"
  by (drule stop_returns) auto

subsection \<open>Sessions\<close>

lemma step_keeps:
  assumes "step pv ev s = Some (Inr s')" and "keeps G P" and "event_all G ev"
    and "store_all P s"
  shows "store_all P s'"
proof (cases ev)
  case Ev_start
  with assms(1) have "records s' = records s" by (simp add: start_frame)
  with assms(4) show ?thesis by (simp add: store_all_def)
next
  case (Ev_stop ds)
  with assms show ?thesis by (auto intro: stop_keeps)
next
  case (Ev_APICallback domain cbid)
  with assms(1) have "s' = s"
    by (auto simp: APICallback_def split: CUpti_CallbackDomain.splits)
  with assms(4) show ?thesis by simp
next
  case (Ev_BufferRequested a)
  with assms(1) have "records s' = records s"
    by (auto simp: BufferRequested_def split: sum.splits dest: requested_frame)
  with assms(4) show ?thesis by (simp add: store_all_def)
next
  case (Ev_BufferCompleted d)
  obtain ctx streamId buffer sz validSize cur
    where d: "d = (ctx, streamId, buffer, sz, validSize, cur)" by (cases d)
  from assms(1) Ev_BufferCompleted d
  have r: "InternalBufferCompleted ctx streamId buffer sz validSize cur s = Some (Inr s')"
    by (simp add: BufferCompleted_def)
  from assms(3) Ev_BufferCompleted d have c: "cursor_all G cur" by simp
  show ?thesis by (rule completed_keeps [OF r assms(2) c assms(4)])
qed

lemma run_keeps:
  "run pv evs s = Some (Inr s') \<Longrightarrow> keeps G P \<Longrightarrow> list_all (event_all G) evs \<Longrightarrow>
   store_all P s \<Longrightarrow> store_all P s'"
proof (induction evs arbitrary: s)
  case Nil
  then show ?case by simp
next
  case (Cons ev evs)
  from Cons.prems(1) obtain s1 where s1: "step pv ev s = Some (Inr s1)"
    and rest: "run pv evs s1 = Some (Inr s')"
    by (auto split: option.splits sum.splits)
  from Cons.prems(3) have ev: "event_all G ev" and evs: "list_all (event_all G) evs"
    by simp_all
  from step_keeps [OF s1 Cons.prems(2) ev Cons.prems(4)] have "store_all P s1" .
  from Cons.IH [OF rest Cons.prems(2) evs this] show ?case .
qed

lemma step_no_delivery:
  assumes "step pv ev s = Some (Inr s')" and "no_delivery ev"
  shows "records s' = records s"
proof (cases ev)
  case Ev_start
  with assms(1) show ?thesis by (simp add: start_frame)
next
  case (Ev_stop ds)
  with assms show ?thesis by (auto dest: stop_no_delivery)
next
  case (Ev_APICallback domain cbid)
  with assms(1) show ?thesis
    by (auto simp: APICallback_def split: CUpti_CallbackDomain.splits)
next
  case (Ev_BufferRequested a)
  with assms(1) show ?thesis
    by (auto simp: BufferRequested_def split: sum.splits dest: requested_frame)
next
  case (Ev_BufferCompleted d)
  with assms(2) show ?thesis by simp
qed

lemma Tracer_records: "records (Tracer pv h0) = []"
  by (simp add: Tracer_def Initialize_def cupti_def)

lemma event_all_True: "event_all (\<lambda>r. True) ev"
proof (cases ev)
  case (Ev_stop ds)
  have "list_all (delivery_all (\<lambda>r. True)) ds"
    by (induction ds) (auto simp: cursor_all_def)
  with Ev_stop show ?thesis by simp
next
  case (Ev_BufferCompleted d)
  then show ?thesis by (cases d) (simp add: cursor_all_def)
qed simp_all

lemma session_records_Some:
  "session_records pv h0 evs = Some Rs \<Longrightarrow>
   \<exists>s. run pv evs (Tracer pv h0) = Some (Inr s) \<and> Rs = records s"
  by (auto simp: session_records_def get_records_def split: option.splits sum.splits)

subsection \<open>Evaluating sessions\<close>

lemma loop_cursor_of:
  "record_loop (cursor_of rs) 0 s = Some (Inr (foldl ActivityCallback s rs))"
proof -
  have "record_loop (cursor_of rs) 0 s
      = Some (loop_end (fst (cursor_of rs (length rs))) (decoded (cursor_of rs) 0 (length rs) s))"
    by (rule loop_total) (simp_all add: cursor_of_def)
  moreover have "map (\<lambda>i. snd (cursor_of rs i)) [0..<length rs] = rs"
    by (rule nth_equalityI) (simp_all add: cursor_of_def)
  ultimately show ?thesis by (simp add: cursor_of_def loop_end_def decoded_def)
qed

lemma completed_cursor_of:
  "validSize \<noteq> 0 \<Longrightarrow>
   InternalBufferCompleted ctx streamId buffer sz validSize (cursor_of rs) s
     = Some (Inr (free buffer (foldl ActivityCallback s rs)))"
  by (simp add: InternalBufferCompleted_def loop_cursor_of word_greater_zero_iff)

lemma start_success:
  assumes "\<forall>log c. pv_status pv log c = CUPTI_SUCCESS"
  shows "\<exists>s'. start pv s = Inr s'"
  using assms by (simp add: start_def CUPTI_CALL_def cupti_def cupti_subscribe_def)

lemma stop_success:
  assumes "\<forall>log c. pv_status pv log c = CUPTI_SUCCESS"
  shows "stop pv ds s = deliver ds (s\<lparr>calls := calls s @ map cuptiActivityDisable session_kinds @
                  [cuptiUnsubscribe (subscriber s), cuptiActivityFlushAll 0]\<rparr>)"
  using assms
  by (auto simp add: stop_def CUPTI_CALL_def cupti_def cupti_flush_all_def session_kinds_def
      split: option.splits sum.splits)

lemma pv_ok_success: "\<forall>log c. pv_status pv_ok log c = CUPTI_SUCCESS"
  by (simp add: pv_ok_def)

lemma loop_two:
  assumes "cur 0 = (CUPTI_SUCCESS, r1)" and "cur 1 = (CUPTI_SUCCESS, r2)"
    and "fst (cur 2) = CUPTI_ERROR_MAX_LIMIT_REACHED"
  shows "record_loop cur 0 s = Some (Inr (ActivityCallback (ActivityCallback s r1) r2))"
proof -
  have "record_loop cur 0 s = record_loop cur (Suc 0) (ActivityCallback s r1)"
    using loop_success [of cur 0 s] assms(1) by simp
  also have "\<dots> = record_loop cur (Suc (Suc 0)) (ActivityCallback (ActivityCallback s r1) r2)"
    using loop_success [of cur "Suc 0" "ActivityCallback s r1"] assms(2) by simp
  also have "\<dots> = Some (Inr (ActivityCallback (ActivityCallback s r1) r2))"
    using loop_stops [of cur "Suc (Suc 0)" "ActivityCallback (ActivityCallback s r1) r2"] assms(3)
    by (simp add: loop_end_def numeral_2_eq_2)
  finally show ?thesis .
qed

lemma ActivityCallback_runtime:
  "kind r = CUPTI_ACTIVITY_KIND_RUNTIME \<Longrightarrow>
   records (ActivityCallback s r) = records s @
     [\<lparr>rkind = ''RUNTIME'', rname = [], rstart = api_start (as_api r),
       rend = api_end (as_api r), processId = api_processId (as_api r),
       threadId = api_threadId (as_api r), correlationId = api_correlationId (as_api r)\<rparr>]"
  by (simp add: ActivityCallback_def push_back_def Let_def)

lemma ActivityCallback_driver:
  "kind r = CUPTI_ACTIVITY_KIND_DRIVER \<Longrightarrow>
   records (ActivityCallback s r) = records s @
     [\<lparr>rkind = ''DRIVER'', rname = [], rstart = api_start (as_api r),
       rend = api_end (as_api r), processId = api_processId (as_api r),
       threadId = api_threadId (as_api r), correlationId = api_correlationId (as_api r)\<rparr>]"
  by (simp add: ActivityCallback_def push_back_def Let_def)

lemma ActivityCallback_kernel:
  "kind r = CUPTI_ACTIVITY_KIND_KERNEL \<Longrightarrow>
   records (ActivityCallback s r) = records s @
     [\<lparr>rkind = ''KERNEL'', rname = k_name (as_kernel r), rstart = k_start (as_kernel r),
       rend = k_end (as_kernel r), processId = k_deviceId (as_kernel r),
       threadId = k_streamId (as_kernel r), correlationId = k_correlationId (as_kernel r)\<rparr>]"
  by (simp add: ActivityCallback_def push_back_def Let_def)

lemma ActivityCallback_concurrent:
  "kind r = CUPTI_ACTIVITY_KIND_CONCURRENT_KERNEL \<Longrightarrow>
   records (ActivityCallback s r) = records s @
     [\<lparr>rkind = ''CONC KERNEL'', rname = k_name (as_kernel r), rstart = k_start (as_kernel r),
       rend = k_end (as_kernel r), processId = k_deviceId (as_kernel r),
       threadId = k_streamId (as_kernel r), correlationId = k_correlationId (as_kernel r)\<rparr>]"
  by (simp add: ActivityCallback_def push_back_def Let_def)

text \<open>
  Sessions in which the provider succeeds in every call: the records after \<^verbatim>\<open>start\<close>, one
  buffer handed back and \<^verbatim>\<open>stop\<close>, the buffer arriving within the flush or before it.
\<close>

lemma session_flush:
  assumes pv: "\<forall>log c. pv_status pv log c = CUPTI_SUCCESS"
    and c: "\<And>s. InternalBufferCompleted ctx streamId buffer sz validSize cur s = Some (Inr (f s))"
    and f: "\<And>s. records (f s) = records s @ Rs"
  shows "session_records pv h0 [Ev_start, Ev_stop [(ctx, streamId, buffer, sz, validSize, cur)]]
           = Some Rs"
proof -
  from start_success [OF pv] obtain s1 where s1: "start pv (Tracer pv h0) = Inr s1" by blast
  then have "records s1 = []" by (simp add: start_frame Tracer_records)
  with s1 show ?thesis
    by (simp add: session_records_def get_records_def stop_success [OF pv] BufferCompleted_def
        c f)
qed

lemma session_before:
  assumes pv: "\<forall>log c. pv_status pv log c = CUPTI_SUCCESS"
    and c: "\<And>s. InternalBufferCompleted ctx streamId buffer sz validSize cur s = Some (Inr (f s))"
    and f: "\<And>s. records (f s) = records s @ Rs"
  shows "session_records pv h0
           [Ev_start, Ev_BufferCompleted (ctx, streamId, buffer, sz, validSize, cur), Ev_stop []]
           = Some Rs"
proof -
  from start_success [OF pv] obtain s1 where s1: "start pv (Tracer pv h0) = Inr s1" by blast
  then have "records s1 = []" by (simp add: start_frame Tracer_records)
  with s1 show ?thesis
    by (simp add: session_records_def get_records_def stop_success [OF pv] BufferCompleted_def
        c f)
qed

text \<open>
  C1. A session in which the provider hands back one buffer that holds a runtime-API
  record (start 100, end 150, process 1, thread 7, correlation 42) and then a serial-kernel
  record (name matmul, start 160, end 300, device 0, stream 3, correlation 42):
  \<^verbatim>\<open>get_records()\<close> after \<^verbatim>\<open>stop()\<close> answers with exactly two records in that order,
  the first tagged RUNTIME with the empty name, the second tagged KERNEL with the name
  matmul, both with correlation id 42. The buffer may arrive within the flush of
  \<^verbatim>\<open>stop\<close> or before it.
\<close>

theorem scenario_runtime_then_kernel:
  assumes "\<forall>log c. pv_status pv log c = CUPTI_SUCCESS"
    and "kind r1 = CUPTI_ACTIVITY_KIND_RUNTIME"
    and "api_start (as_api r1) = 100" and "api_end (as_api r1) = 150"
    and "api_processId (as_api r1) = 1" and "api_threadId (as_api r1) = 7"
    and "api_correlationId (as_api r1) = 42"
    and "kind r2 = CUPTI_ACTIVITY_KIND_KERNEL"
    and "k_name (as_kernel r2) = ''matmul''"
    and "k_start (as_kernel r2) = 160" and "k_end (as_kernel r2) = 300"
    and "k_deviceId (as_kernel r2) = 0" and "k_streamId (as_kernel r2) = 3"
    and "k_correlationId (as_kernel r2) = 42"
    and "cur 0 = (CUPTI_SUCCESS, r1)" and "cur 1 = (CUPTI_SUCCESS, r2)"
    and "fst (cur 2) = CUPTI_ERROR_MAX_LIMIT_REACHED"
    and "0 < validSize"
  shows "session_records pv h0 [Ev_start, Ev_stop [(ctx, streamId, buffer, sz, validSize, cur)]]
           = Some [\<lparr>rkind = ''RUNTIME'', rname = [], rstart = 100, rend = 150,
                     processId = 1, threadId = 7, correlationId = 42\<rparr>,
                   \<lparr>rkind = ''KERNEL'', rname = ''matmul'', rstart = 160, rend = 300,
                     processId = 0, threadId = 3, correlationId = 42\<rparr>]
       \<and> session_records pv h0
           [Ev_start, Ev_BufferCompleted (ctx, streamId, buffer, sz, validSize, cur), Ev_stop []]
           = Some [\<lparr>rkind = ''RUNTIME'', rname = [], rstart = 100, rend = 150,
                     processId = 1, threadId = 7, correlationId = 42\<rparr>,
                   \<lparr>rkind = ''KERNEL'', rname = ''matmul'', rstart = 160, rend = 300,
                     processId = 0, threadId = 3, correlationId = 42\<rparr>]"
proof -
  let ?f = "\<lambda>s. free buffer (ActivityCallback (ActivityCallback s r1) r2)"
  have c: "\<And>s. InternalBufferCompleted ctx streamId buffer sz validSize cur s = Some (Inr (?f s))"
    using assms(18) loop_two [OF assms(15,16,17)] by (simp add: InternalBufferCompleted_def)
  have f: "\<And>s. records (?f s) = records s @
      [\<lparr>rkind = ''RUNTIME'', rname = [], rstart = 100, rend = 150,
        processId = 1, threadId = 7, correlationId = 42\<rparr>,
       \<lparr>rkind = ''KERNEL'', rname = ''matmul'', rstart = 160, rend = 300,
        processId = 0, threadId = 3, correlationId = 42\<rparr>]"
    using assms(2-14)
    by (simp add: free_frame ActivityCallback_runtime ActivityCallback_kernel)
  from session_flush [OF assms(1) c f] session_before [OF assms(1) c f]
  show ?thesis by blast
qed

theorem scenario_runtime_then_kernel_witness:
  "session_records pv_ok 0
     [Ev_start,
      Ev_stop [(0, 3, 4096, BUF_SIZE, 128,
                cursor_of [api_raw CUPTI_ACTIVITY_KIND_RUNTIME 100 150 1 7 42,
                           kernel_raw CUPTI_ACTIVITY_KIND_KERNEL ''matmul'' 160 300 0 3 42])]]
     = Some [\<lparr>rkind = ''RUNTIME'', rname = [], rstart = 100, rend = 150,
               processId = 1, threadId = 7, correlationId = 42\<rparr>,
             \<lparr>rkind = ''KERNEL'', rname = ''matmul'', rstart = 160, rend = 300,
               processId = 0, threadId = 3, correlationId = 42\<rparr>]"
  using scenario_runtime_then_kernel
    [of pv_ok "api_raw CUPTI_ACTIVITY_KIND_RUNTIME 100 150 1 7 42"
        "kernel_raw CUPTI_ACTIVITY_KIND_KERNEL ''matmul'' 160 300 0 3 42"
        "cursor_of [api_raw CUPTI_ACTIVITY_KIND_RUNTIME 100 150 1 7 42,
                    kernel_raw CUPTI_ACTIVITY_KIND_KERNEL ''matmul'' 160 300 0 3 42]"
        128 0 0 3 4096 BUF_SIZE]
  by (simp add: pv_ok_def api_raw_def kernel_raw_def cursor_of_def)

text \<open>
  C2, as amended. After every session that returns, the kind of every record of the store
  is one of the four tags DRIVER, RUNTIME, KERNEL and CONC KERNEL; whatever the store held,
  \<^verbatim>\<open>ActivityCallback\<close> adds records with one of these tags only; and a concurrent-kernel
  raw record adds exactly one record, tagged CONC KERNEL.
\<close>

theorem record_kind_tags:
  "(session_records pv h0 evs = Some Rs \<longrightarrow>
      (\<forall>R\<in>set Rs. rkind R \<in> {''DRIVER'', ''RUNTIME'', ''KERNEL'', ''CONC KERNEL''}))
   \<and> (\<forall>R\<in>set (records (ActivityCallback s r)).
        R \<in> set (records s) \<or> rkind R \<in> {''DRIVER'', ''RUNTIME'', ''KERNEL'', ''CONC KERNEL''})
   \<and> (kind r = CUPTI_ACTIVITY_KIND_CONCURRENT_KERNEL \<longrightarrow>
        map rkind (records (ActivityCallback s r)) = map rkind (records s) @ [''CONC KERNEL''])"
proof (intro conjI impI)
  assume "session_records pv h0 evs = Some Rs"
  then obtain s' where s': "run pv evs (Tracer pv h0) = Some (Inr s')" "Rs = records s'"
    using session_records_Some by blast
  have "store_all (\<lambda>R. rkind R \<in> {''DRIVER'', ''RUNTIME'', ''KERNEL'', ''CONC KERNEL''}) s'"
  proof (rule run_keeps [OF s'(1) keeps_tags])
    show "list_all (event_all (\<lambda>r. True)) evs"
      by (simp add: list_all_iff event_all_True)
    show "store_all (\<lambda>R. rkind R \<in> {''DRIVER'', ''RUNTIME'', ''KERNEL'', ''CONC KERNEL''})
            (Tracer pv h0)"
      by (simp add: store_all_def Tracer_records)
  qed
  with s'(2) show "\<forall>R\<in>set Rs. rkind R \<in> {''DRIVER'', ''RUNTIME'', ''KERNEL'', ''CONC KERNEL''}"
    by (simp add: store_all_def)
next
  show "\<forall>R\<in>set (records (ActivityCallback s r)).
        R \<in> set (records s) \<or> rkind R \<in> {''DRIVER'', ''RUNTIME'', ''KERNEL'', ''CONC KERNEL''}"
    by (cases "kind r") (auto simp: ActivityCallback_def push_back_def Let_def)
next
  assume "kind r = CUPTI_ACTIVITY_KIND_CONCURRENT_KERNEL"
  then show "map rkind (records (ActivityCallback s r)) = map rkind (records s) @ [''CONC KERNEL'']"
    by (simp add: ActivityCallback_concurrent)
qed

lemma ActivityCallback_append:
  "records (ActivityCallback s r) = records s @ records (ActivityCallback (t\<lparr>records := []\<rparr>) r)"
  by (cases "kind r") (simp_all add: ActivityCallback_def push_back_def Let_def)

lemma foldl_append:
  "records (foldl ActivityCallback s rs)
     = records s @ records (foldl ActivityCallback (t\<lparr>records := []\<rparr>) rs)"
proof (induction rs arbitrary: s rule: rev_induct)
  case Nil
  show ?case by simp
next
  case (snoc r rs)
  have "records (foldl ActivityCallback s (rs @ [r]))
      = records (foldl ActivityCallback s rs) @ records (ActivityCallback (t\<lparr>records := []\<rparr>) r)"
    using ActivityCallback_append [of "foldl ActivityCallback s rs" r t] by simp
  also have "\<dots> = records s @ (records (foldl ActivityCallback (t\<lparr>records := []\<rparr>) rs)
                 @ records (ActivityCallback (t\<lparr>records := []\<rparr>) r))"
    using snoc [of s] by simp
  also have "records (foldl ActivityCallback (t\<lparr>records := []\<rparr>) rs)
                 @ records (ActivityCallback (t\<lparr>records := []\<rparr>) r)
           = records (foldl ActivityCallback (t\<lparr>records := []\<rparr>) (rs @ [r]))"
    using ActivityCallback_append [of "foldl ActivityCallback (t\<lparr>records := []\<rparr>) rs" r t]
    by simp
  finally show ?case .
qed

lemma session_one_buffer:
  assumes "validSize \<noteq> 0"
  shows "session_records pv_ok h0
           [Ev_start, Ev_stop [(ctx, streamId, buffer, sz, validSize, cursor_of rs)]]
         = Some (records (foldl ActivityCallback (Tracer pv_ok h0) rs))"
proof -
  let ?f = "\<lambda>s. free buffer (foldl ActivityCallback s rs)"
  let ?Rs = "records (foldl ActivityCallback (Tracer pv_ok h0) rs)"
  have c: "\<And>s. InternalBufferCompleted ctx streamId buffer sz validSize (cursor_of rs) s
             = Some (Inr (?f s))"
    using assms by (simp add: completed_cursor_of)
  have eq: "(Tracer pv_ok h0)\<lparr>records := []\<rparr> = Tracer pv_ok h0"
    by (simp add: Tracer_def Initialize_def cupti_def)
  have g: "\<And>s. records (foldl ActivityCallback s rs) = records s @ ?Rs"
    by (subst foldl_append [of _ rs "Tracer pv_ok h0"]) (simp only: eq)
  have f: "\<And>s. records (?f s) = records s @ ?Rs"
    unfolding free_frame by (rule g)
  from session_flush [OF pv_ok_success c f] show ?thesis .
qed

theorem record_kind_tags_witness:
  "session_records pv_ok 0
     [Ev_start,
      Ev_stop [(0, 3, 4096, BUF_SIZE, 128,
                cursor_of [kernel_raw CUPTI_ACTIVITY_KIND_CONCURRENT_KERNEL ''axpy'' 160 300 0 3 42])]]
     = Some [\<lparr>rkind = ''CONC KERNEL'', rname = ''axpy'', rstart = 160, rend = 300,
               processId = 0, threadId = 3, correlationId = 42\<rparr>]
   \<and> ''CONC KERNEL'' \<in> {''DRIVER'', ''RUNTIME'', ''KERNEL'', ''CONC KERNEL''}
   \<and> map rkind (records (ActivityCallback (Tracer pv_ok 0)
          (kernel_raw CUPTI_ACTIVITY_KIND_CONCURRENT_KERNEL ''axpy'' 160 300 0 3 42)))
       = [''CONC KERNEL'']"
  using record_kind_tags
    [of pv_ok 0
        "[Ev_start,
          Ev_stop [(0, 3, 4096, BUF_SIZE, 128,
            cursor_of [kernel_raw CUPTI_ACTIVITY_KIND_CONCURRENT_KERNEL ''axpy'' 160 300 0 3 42])]]"
        "[\<lparr>rkind = ''CONC KERNEL'', rname = ''axpy'', rstart = 160, rend = 300,
               processId = 0, threadId = 3, correlationId = 42\<rparr>]"
        "Tracer pv_ok 0"
        "kernel_raw CUPTI_ACTIVITY_KIND_CONCURRENT_KERNEL ''axpy'' 160 300 0 3 42"]
  by (simp add: session_one_buffer ActivityCallback_concurrent Tracer_records kernel_raw_def)

theorem record_kind_tags_counterexample:
  "session_records pv_ok 0
     [Ev_start,
      Ev_stop [(0, 3, 4096, BUF_SIZE, 128,
                cursor_of [kernel_raw CUPTI_ACTIVITY_KIND_CONCURRENT_KERNEL ''axpy'' 160 300 0 3 42])]]
     = Some [\<lparr>rkind = ''CONC KERNEL'', rname = ''axpy'', rstart = 160, rend = 300,
               processId = 0, threadId = 3, correlationId = 42\<rparr>]
   \<and> ''CONC KERNEL'' \<notin> {''DRIVER'', ''RUNTIME'', ''KERNEL'', ''CONCURRENT_KERNEL''}"
  by (simp add: session_one_buffer ActivityCallback_concurrent Tracer_records kernel_raw_def)

text \<open>
  C7. A raw record whose kind is none of the four decoded kinds: \<^verbatim>\<open>ActivityCallback\<close>
  returns with the whole process state, the store with it, as it was; the loop of the
  buffer-completed handler goes on to the next call of the cursor with that state; and
  over any run of raw records the store grows by the number of records of the four
  kinds, so that the others add nothing to the count.
\<close>

theorem unknown_kind_ignored:
  "(kind r \<notin> {CUPTI_ACTIVITY_KIND_DRIVER, CUPTI_ACTIVITY_KIND_RUNTIME,
               CUPTI_ACTIVITY_KIND_KERNEL, CUPTI_ACTIVITY_KIND_CONCURRENT_KERNEL} \<longrightarrow>
      ActivityCallback s r = s \<and>
      (cur n = (CUPTI_SUCCESS, r) \<longrightarrow> record_loop cur n s = record_loop cur (Suc n) s))
   \<and> length (records (foldl ActivityCallback s rs)) =
       length (records s) +
       length (filter (\<lambda>r. kind r \<in> {CUPTI_ACTIVITY_KIND_DRIVER, CUPTI_ACTIVITY_KIND_RUNTIME,
               CUPTI_ACTIVITY_KIND_KERNEL, CUPTI_ACTIVITY_KIND_CONCURRENT_KERNEL}) rs)"
proof (intro conjI impI)
  assume "kind r \<notin> {CUPTI_ACTIVITY_KIND_DRIVER, CUPTI_ACTIVITY_KIND_RUNTIME,
               CUPTI_ACTIVITY_KIND_KERNEL, CUPTI_ACTIVITY_KIND_CONCURRENT_KERNEL}"
  then have other: "kind r \<notin> decoded_kinds" by (simp add: decoded_kinds_def)
  then show same: "ActivityCallback s r = s" by (rule ActivityCallback_other)
  assume "cur n = (CUPTI_SUCCESS, r)"
  then show "record_loop cur n s = record_loop cur (Suc n) s"
    using loop_success [of cur n s] same by simp
next
  show "length (records (foldl ActivityCallback s rs)) =
       length (records s) +
       length (filter (\<lambda>r. kind r \<in> {CUPTI_ACTIVITY_KIND_DRIVER, CUPTI_ACTIVITY_KIND_RUNTIME,
               CUPTI_ACTIVITY_KIND_KERNEL, CUPTI_ACTIVITY_KIND_CONCURRENT_KERNEL}) rs)"
    using foldl_length [of s rs] by (simp only: decoded_kinds_def)
qed

lemma raw_kind:
  "kind (api_raw k st en pid tid corr) = k"
  "kind (kernel_raw k nm st en dev str corr) = k"
  by (simp_all add: api_raw_def kernel_raw_def)

theorem unknown_kind_ignored_witness:
  "CUPTI_ACTIVITY_KIND_MEMCPY \<notin> {CUPTI_ACTIVITY_KIND_DRIVER, CUPTI_ACTIVITY_KIND_RUNTIME,
               CUPTI_ACTIVITY_KIND_KERNEL, CUPTI_ACTIVITY_KIND_CONCURRENT_KERNEL}
   \<and> ActivityCallback (Tracer pv_ok 0) (api_raw CUPTI_ACTIVITY_KIND_MEMCPY 100 150 1 7 42)
       = Tracer pv_ok 0
   \<and> record_loop (cursor_of [api_raw CUPTI_ACTIVITY_KIND_MEMCPY 100 150 1 7 42]) 0 (Tracer pv_ok 0)
       = record_loop (cursor_of [api_raw CUPTI_ACTIVITY_KIND_MEMCPY 100 150 1 7 42]) (Suc 0)
           (Tracer pv_ok 0)
   \<and> length (records (foldl ActivityCallback (Tracer pv_ok 0)
         [api_raw CUPTI_ACTIVITY_KIND_MEMCPY 100 150 1 7 42,
          api_raw CUPTI_ACTIVITY_KIND_RUNTIME 100 150 1 7 42,
          api_raw (CUPTI_ACTIVITY_KIND_OTHER 99) 100 150 1 7 42])) = 1"
  using unknown_kind_ignored
    [of "api_raw CUPTI_ACTIVITY_KIND_MEMCPY 100 150 1 7 42" "Tracer pv_ok 0"
        "cursor_of [api_raw CUPTI_ACTIVITY_KIND_MEMCPY 100 150 1 7 42]" 0
        "[api_raw CUPTI_ACTIVITY_KIND_MEMCPY 100 150 1 7 42,
          api_raw CUPTI_ACTIVITY_KIND_RUNTIME 100 150 1 7 42,
          api_raw (CUPTI_ACTIVITY_KIND_OTHER 99) 100 150 1 7 42]"]
  by (auto simp: raw_kind cursor_of_def Tracer_records)

text \<open>
  C8, as amended. \<^verbatim>\<open>ActivityCallback\<close> copies the two timestamps of the raw record as
  they are. After every session that returns and in which the end of every raw record
  handed to \<^verbatim>\<open>ActivityCallback\<close> is not before its start, the end of every record of the
  store is not before its start.
\<close>

theorem record_end_after_start:
  "list_all (event_all raw_ok) evs \<Longrightarrow> session_records pv h0 evs = Some Rs \<Longrightarrow>
   \<forall>R\<in>set Rs. rstart R \<le> rend R"
proof -
  assume ok: "list_all (event_all raw_ok) evs" and "session_records pv h0 evs = Some Rs"
  then obtain s' where s': "run pv evs (Tracer pv h0) = Some (Inr s')" "Rs = records s'"
    using session_records_Some by blast
  have "store_all (\<lambda>R. rstart R \<le> rend R) s'"
  proof (rule run_keeps [OF s'(1) keeps_times ok])
    show "store_all (\<lambda>R. rstart R \<le> rend R) (Tracer pv h0)"
      by (simp add: store_all_def Tracer_records)
  qed
  with s'(2) show ?thesis by (simp add: store_all_def)
qed

theorem record_end_after_start_witness:
  "list_all (event_all raw_ok)
     [Ev_start,
      Ev_stop [(0, 3, 4096, BUF_SIZE, 128,
                cursor_of [api_raw CUPTI_ACTIVITY_KIND_RUNTIME 100 150 1 7 42])]]
   \<and> session_records pv_ok 0
     [Ev_start,
      Ev_stop [(0, 3, 4096, BUF_SIZE, 128,
                cursor_of [api_raw CUPTI_ACTIVITY_KIND_RUNTIME 100 150 1 7 42])]]
     = Some [\<lparr>rkind = ''RUNTIME'', rname = [], rstart = 100, rend = 150,
               processId = 1, threadId = 7, correlationId = 42\<rparr>]
   \<and> (100 :: u64) \<le> 150"
  using record_end_after_start
    [of "[Ev_start,
          Ev_stop [(0, 3, 4096, BUF_SIZE, 128,
                cursor_of [api_raw CUPTI_ACTIVITY_KIND_RUNTIME 100 150 1 7 42])]]"
        pv_ok 0
        "[\<lparr>rkind = ''RUNTIME'', rname = [], rstart = 100, rend = 150,
               processId = 1, threadId = 7, correlationId = 42\<rparr>]"]
  by (simp add: session_one_buffer ActivityCallback_runtime Tracer_records api_raw_def
      cursor_all_def cursor_of_def raw_ok_def)

theorem record_end_after_start_counterexample:
  "session_records pv_ok 0
     [Ev_start,
      Ev_stop [(0, 3, 4096, BUF_SIZE, 128,
                cursor_of [api_raw CUPTI_ACTIVITY_KIND_RUNTIME 10 5 1 7 42])]]
     = Some [\<lparr>rkind = ''RUNTIME'', rname = [], rstart = 10, rend = 5,
               processId = 1, threadId = 7, correlationId = 42\<rparr>]
   \<and> \<not> ((10 :: u64) \<le> 5)"
  by (simp add: session_one_buffer ActivityCallback_runtime Tracer_records api_raw_def)

text \<open>
  C10. \<^verbatim>\<open>APICallback\<close> returns with the whole process state, the store with it, as it
  was, for every domain, callback id and callback data; and every event of a session
  in which the provider hands back no buffer leaves the store as it was, so that records
  come from the buffer-completed path only.
\<close>

theorem api_callback_keeps_store:
  "APICallback s domain cbid cbdata = s
   \<and> (step pv ev s = Some (Inr s') \<and> no_delivery ev \<longrightarrow> records s' = records s)"
proof
  show "APICallback s domain cbid cbdata = s"
    by (cases domain) (simp_all add: APICallback_def)
  show "step pv ev s = Some (Inr s') \<and> no_delivery ev \<longrightarrow> records s' = records s"
    using step_no_delivery by blast
qed

theorem api_callback_keeps_store_witness:
  "APICallback (Tracer pv_ok 0) CUPTI_CB_DOMAIN_RUNTIME_API
     CUPTI_RUNTIME_TRACE_CBID_cudaLaunch_v3020 () = Tracer pv_ok 0
   \<and> step pv_ok (Ev_APICallback CUPTI_CB_DOMAIN_DRIVER_API CUPTI_DRIVER_TRACE_CBID_cuLaunchKernel)
        (Tracer pv_ok 0) = Some (Inr (Tracer pv_ok 0))
   \<and> no_delivery (Ev_APICallback CUPTI_CB_DOMAIN_DRIVER_API CUPTI_DRIVER_TRACE_CBID_cuLaunchKernel)
   \<and> records (Tracer pv_ok 0) = []"
  using api_callback_keeps_store
    [of "Tracer pv_ok 0" CUPTI_CB_DOMAIN_RUNTIME_API CUPTI_RUNTIME_TRACE_CBID_cudaLaunch_v3020 "()"
        pv_ok "Ev_APICallback CUPTI_CB_DOMAIN_DRIVER_API CUPTI_DRIVER_TRACE_CBID_cuLaunchKernel"
        "Tracer pv_ok 0"]
  by (simp add: APICallback_def Tracer_records)

text \<open>
  C3, as amended. \<^verbatim>\<open>stop\<close> disables exactly the categories \<^verbatim>\<open>start\<close> enables, in the
  order in which \<^verbatim>\<open>start\<close> enables them (context, driver, runtime, memcpy, memset, name,
  marker, kernel, overhead), then unsubscribes the callback, then calls the flush, and
  the buffers in flight are handed back after these calls.
\<close>

theorem stop_disables_in_start_order:
  "start pv s = Inr s1 \<Longrightarrow> stop pv ds s2 = Some (Inr s3) \<Longrightarrow>
   enabled_kinds (drop (length (calls s)) (calls s1)) =
     [CUPTI_ACTIVITY_KIND_CONTEXT, CUPTI_ACTIVITY_KIND_DRIVER, CUPTI_ACTIVITY_KIND_RUNTIME,
      CUPTI_ACTIVITY_KIND_MEMCPY, CUPTI_ACTIVITY_KIND_MEMSET, CUPTI_ACTIVITY_KIND_NAME,
      CUPTI_ACTIVITY_KIND_MARKER, CUPTI_ACTIVITY_KIND_KERNEL, CUPTI_ACTIVITY_KIND_OVERHEAD]
   \<and> calls s3 = calls s2 @
       map cuptiActivityDisable (enabled_kinds (drop (length (calls s)) (calls s1))) @
       [cuptiUnsubscribe (subscriber s2), cuptiActivityFlushAll 0]
   \<and> deliver ds (s2\<lparr>calls := calls s3\<rparr>) = Some (Inr s3)"
proof -
  assume a: "start pv s = Inr s1" and b: "stop pv ds s2 = Some (Inr s3)"
  from start_returns [OF a]
  have e: "enabled_kinds (drop (length (calls s)) (calls s1)) = session_kinds"
    by (simp add: session_kinds_def)
  note c = stop_calls(1) [OF b]
  from stop_returns [OF b] c
  have "deliver ds (s2\<lparr>calls := calls s3\<rparr>) = Some (Inr s3)" by simp
  with e c show ?thesis by (simp add: session_kinds_def)
qed

lemma start_pv_ok: "start pv_ok (Tracer pv_ok 0) = Inr started"
  by (simp add: start_def CUPTI_CALL_def cupti_def cupti_subscribe_def pv_ok_def started_def
      Tracer_def Initialize_def session_kinds_def)

lemma stop_pv_ok: "stop pv_ok [] started = Some (Inr stopped)"
  by (simp add: stop_success [OF pv_ok_success] stopped_def started_def)

theorem stop_disables_in_start_order_witness:
  "start pv_ok (Tracer pv_ok 0) = Inr started \<and> stop pv_ok [] started = Some (Inr stopped)
   \<and> calls stopped = calls started @
       map cuptiActivityDisable
         [CUPTI_ACTIVITY_KIND_CONTEXT, CUPTI_ACTIVITY_KIND_DRIVER, CUPTI_ACTIVITY_KIND_RUNTIME,
          CUPTI_ACTIVITY_KIND_MEMCPY, CUPTI_ACTIVITY_KIND_MEMSET, CUPTI_ACTIVITY_KIND_NAME,
          CUPTI_ACTIVITY_KIND_MARKER, CUPTI_ACTIVITY_KIND_KERNEL, CUPTI_ACTIVITY_KIND_OVERHEAD] @
       [cuptiUnsubscribe 1, cuptiActivityFlushAll 0]"
  using stop_disables_in_start_order [OF start_pv_ok stop_pv_ok] start_pv_ok stop_pv_ok
  by (simp add: started_def)

lemma session_start_stop:
  "session_calls pv_ok 0 [Ev_start, Ev_stop []] = Some (calls stopped)"
  by (simp add: session_calls_def start_pv_ok stop_pv_ok)

theorem stop_disables_in_start_order_counterexample:
  "map_option enabled_kinds (session_calls pv_ok 0 [Ev_start, Ev_stop []]) =
     Some [CUPTI_ACTIVITY_KIND_CONTEXT, CUPTI_ACTIVITY_KIND_DRIVER, CUPTI_ACTIVITY_KIND_RUNTIME,
           CUPTI_ACTIVITY_KIND_MEMCPY, CUPTI_ACTIVITY_KIND_MEMSET, CUPTI_ACTIVITY_KIND_NAME,
           CUPTI_ACTIVITY_KIND_MARKER, CUPTI_ACTIVITY_KIND_KERNEL, CUPTI_ACTIVITY_KIND_OVERHEAD]
   \<and> map_option disabled_kinds (session_calls pv_ok 0 [Ev_start, Ev_stop []]) =
     Some [CUPTI_ACTIVITY_KIND_CONTEXT, CUPTI_ACTIVITY_KIND_DRIVER, CUPTI_ACTIVITY_KIND_RUNTIME,
           CUPTI_ACTIVITY_KIND_MEMCPY, CUPTI_ACTIVITY_KIND_MEMSET, CUPTI_ACTIVITY_KIND_NAME,
           CUPTI_ACTIVITY_KIND_MARKER, CUPTI_ACTIVITY_KIND_KERNEL, CUPTI_ACTIVITY_KIND_OVERHEAD]
   \<and> map_option disabled_kinds (session_calls pv_ok 0 [Ev_start, Ev_stop []]) \<noteq>
     map_option (rev \<circ> enabled_kinds) (session_calls pv_ok 0 [Ev_start, Ev_stop []])"
  by (simp add: session_start_stop stopped_def started_def session_kinds_def)

text \<open>
  C6. The buffer-completed handler, for every buffer, valid size and cursor. With no
  valid bytes it does not look at the cursor and frees the buffer. Otherwise, when the
  first status that is not success is the no-more-records status, it returns with the
  records before it decoded and the buffer freed; when it is any other status, the process
  ends. Whenever the handler returns, \<^verbatim>\<open>free\<close> was called once more, on the buffer; and the
  process ends only on a status that is neither success nor no-more-records.
\<close>

theorem buffer_completed_outcomes:
  "(validSize = 0 \<longrightarrow>
      InternalBufferCompleted ctx streamId buffer sz validSize cur s
        = Some (Inr (free buffer s)))
   \<and> (0 < validSize \<and> (\<forall>i<k. fst (cur i) = CUPTI_SUCCESS) \<and>
        fst (cur k) = CUPTI_ERROR_MAX_LIMIT_REACHED \<longrightarrow>
      InternalBufferCompleted ctx streamId buffer sz validSize cur s
        = Some (Inr (free buffer (decoded cur 0 k s))))
   \<and> (0 < validSize \<and> (\<forall>i<k. fst (cur i) = CUPTI_SUCCESS) \<and>
        fst (cur k) \<noteq> CUPTI_SUCCESS \<and> fst (cur k) \<noteq> CUPTI_ERROR_MAX_LIMIT_REACHED \<longrightarrow>
      InternalBufferCompleted ctx streamId buffer sz validSize cur s = Some (Inl Exit))
   \<and> (InternalBufferCompleted ctx streamId buffer sz validSize cur s = Some (Inr s') \<longrightarrow>
        freed s' = freed s @ [buffer])
   \<and> (InternalBufferCompleted ctx streamId buffer sz validSize cur s = Some (Inl e) \<longrightarrow>
        0 < validSize \<and>
        (\<exists>j. (\<forall>i<j. fst (cur i) = CUPTI_SUCCESS) \<and> fst (cur j) \<noteq> CUPTI_SUCCESS \<and>
             fst (cur j) \<noteq> CUPTI_ERROR_MAX_LIMIT_REACHED))"
proof (intro conjI impI)
  assume "validSize = 0"
  then show "InternalBufferCompleted ctx streamId buffer sz validSize cur s
        = Some (Inr (free buffer s))"
    by (simp add: InternalBufferCompleted_def)
next
  assume a: "0 < validSize \<and> (\<forall>i<k. fst (cur i) = CUPTI_SUCCESS) \<and>
        fst (cur k) = CUPTI_ERROR_MAX_LIMIT_REACHED"
  then have "record_loop cur 0 s = Some (loop_end (fst (cur k)) (decoded cur 0 k s))"
    by (intro loop_total) simp_all
  with a show "InternalBufferCompleted ctx streamId buffer sz validSize cur s
        = Some (Inr (free buffer (decoded cur 0 k s)))"
    by (simp add: InternalBufferCompleted_def loop_end_def)
next
  assume a: "0 < validSize \<and> (\<forall>i<k. fst (cur i) = CUPTI_SUCCESS) \<and>
        fst (cur k) \<noteq> CUPTI_SUCCESS \<and> fst (cur k) \<noteq> CUPTI_ERROR_MAX_LIMIT_REACHED"
  then have "record_loop cur 0 s = Some (loop_end (fst (cur k)) (decoded cur 0 k s))"
    by (intro loop_total) simp_all
  with a show "InternalBufferCompleted ctx streamId buffer sz validSize cur s = Some (Inl Exit)"
    by (simp add: InternalBufferCompleted_def loop_end_def)
next
  assume "InternalBufferCompleted ctx streamId buffer sz validSize cur s = Some (Inr s')"
  then show "freed s' = freed s @ [buffer]" by (rule completed_frame)
next
  assume a: "InternalBufferCompleted ctx streamId buffer sz validSize cur s = Some (Inl e)"
  then show "0 < validSize"
    by (auto simp: InternalBufferCompleted_def word_greater_zero_iff split: if_splits)
  with a have "record_loop cur 0 s = Some (Inl e)"
    by (auto simp: InternalBufferCompleted_def split: option.splits sum.splits)
  from loop_returns [OF this]
  obtain j where j: "\<forall>i. 0 \<le> i \<and> i < j \<longrightarrow> fst (cur i) = CUPTI_SUCCESS"
    "fst (cur j) \<noteq> CUPTI_SUCCESS" "Inl e = loop_end (fst (cur j)) (decoded cur 0 j s)"
    by blast
  from j(3) have "fst (cur j) \<noteq> CUPTI_ERROR_MAX_LIMIT_REACHED"
    by (auto simp: loop_end_def split: if_splits)
  with j(1,2) show "\<exists>j. (\<forall>i<j. fst (cur i) = CUPTI_SUCCESS) \<and> fst (cur j) \<noteq> CUPTI_SUCCESS \<and>
             fst (cur j) \<noteq> CUPTI_ERROR_MAX_LIMIT_REACHED"
    by (intro exI [of _ j]) simp
qed

theorem buffer_completed_outcomes_witness:
  "InternalBufferCompleted 0 3 4096 BUF_SIZE 0 (cursor_of []) (Tracer pv_ok 0)
     = Some (Inr (free 4096 (Tracer pv_ok 0)))
   \<and> freed (free 4096 (Tracer pv_ok 0)) = [4096]
   \<and> InternalBufferCompleted 0 3 4096 BUF_SIZE 128
       (cursor_of [api_raw CUPTI_ACTIVITY_KIND_RUNTIME 100 150 1 7 42]) (Tracer pv_ok 0)
     = Some (Inr (free 4096 (ActivityCallback (Tracer pv_ok 0)
                    (api_raw CUPTI_ACTIVITY_KIND_RUNTIME 100 150 1 7 42))))
   \<and> InternalBufferCompleted 0 3 4096 BUF_SIZE 128
       (cursor_bad [api_raw CUPTI_ACTIVITY_KIND_RUNTIME 100 150 1 7 42] 1) (Tracer pv_ok 0)
     = Some (Inl Exit)
   \<and> (0 :: size_t) < 128
   \<and> fst (cursor_bad [api_raw CUPTI_ACTIVITY_KIND_RUNTIME 100 150 1 7 42] 1 (Suc 0))
       = CUPTI_ERROR_OTHER 1"
proof -
  let ?r = "api_raw CUPTI_ACTIVITY_KIND_RUNTIME 100 150 1 7 42"
  let ?s = "Tracer pv_ok 0"
  note none = buffer_completed_outcomes
    [where validSize = 0 and ctx = 0 and streamId = 3 and buffer = 4096 and sz = BUF_SIZE
       and cur = "cursor_of []" and s = ?s and s' = "free 4096 ?s" and k = 0 and e = Exit]
  note good = buffer_completed_outcomes
    [where validSize = 128 and ctx = 0 and streamId = 3 and buffer = 4096 and sz = BUF_SIZE
       and cur = "cursor_of [?r]" and s = ?s and k = "Suc 0" and e = Exit
       and s' = "free 4096 (ActivityCallback ?s ?r)"]
  note bad = buffer_completed_outcomes
    [where validSize = 128 and ctx = 0 and streamId = 3 and buffer = 4096 and sz = BUF_SIZE
       and cur = "cursor_bad [?r] 1" and s = ?s and k = "Suc 0" and e = Exit
       and s' = ?s]
  have a: "InternalBufferCompleted 0 3 4096 BUF_SIZE 0 (cursor_of []) ?s
             = Some (Inr (free 4096 ?s))"
    using none by simp
  with none have b: "freed (free 4096 ?s) = [4096]"
    by (simp add: Tracer_def Initialize_def cupti_def)
  have c: "InternalBufferCompleted 0 3 4096 BUF_SIZE 128 (cursor_of [?r]) ?s
             = Some (Inr (free 4096 (ActivityCallback ?s ?r)))"
    using good by (simp add: cursor_of_def decoded_def)
  have d: "InternalBufferCompleted 0 3 4096 BUF_SIZE 128 (cursor_bad [?r] 1) ?s
             = Some (Inl Exit)"
    using bad by (simp add: cursor_bad_def)
  from a b c d show ?thesis by (simp add: cursor_bad_def)
qed




lemma seven_mask: "(7 :: 64 word) = mask 3"
  by (simp add: mask_eq_exp_minus_1)

lemma and7_unat: "unat ((a :: 64 word) AND 7) = unat a mod 8"
proof -
  have "a AND 7 = take_bit 3 a" by (simp only: seven_mask take_bit_eq_mask)
  then have "unat (a AND 7) = take_bit 3 (unat a)" by (simp only: unsigned_take_bit_eq)
  then show ?thesis by (simp add: take_bit_eq_mod)
qed

lemma and7_zero: "((a :: 64 word) AND 7 = 0) = (unat a mod 8 = 0)"
  using and7_unat [of a] by (simp add: unat_eq_0 [symmetric] del: unat_eq_0)

lemma ALIGN_BUFFER_unat:
  assumes "unat a + 8 < 2 ^ 64"
  shows "unat (ALIGN_BUFFER a ALIGN_SIZE) =
           (if unat a mod 8 = 0 then unat a else unat a + 8 - unat a mod 8)"
proof (cases "unat a mod 8 = 0")
  case True
  then show ?thesis by (simp add: ALIGN_BUFFER_def ALIGN_SIZE_def and7_zero)
next
  case False
  have m: "unat (a AND 7) = unat a mod 8" by (rule and7_unat)
  have "unat (a + 8 - (a AND 7)) = unat a + 8 - unat a mod 8"
  proof -
    have le: "a AND 7 \<le> a" by (rule word_and_le2)
    have "a + 8 - (a AND 7) = (a - (a AND 7)) + 8" by simp
    have "unat (a + 8) = unat a + 8" using assms by (simp add: unat_word_ariths)
    moreover have "unat (a AND 7) \<le> unat (a + 8)" using m calculation by simp
    then have "a AND 7 \<le> a + 8" by (simp add: word_le_nat_alt)
    then have "unat (a + 8 - (a AND 7)) = unat (a + 8) - unat (a AND 7)"
      by (rule unat_sub)
    ultimately show ?thesis using m by simp
  qed
  with False show ?thesis by (simp add: ALIGN_BUFFER_def ALIGN_SIZE_def and7_zero)
qed
text \<open>
  C5. A buffer request, for every answer \<open>a\<close> of \<^verbatim>\<open>malloc\<close> (the block it answers with lying
  within the address space). On \<^verbatim>\<open>NULL\<close> the process ends and nothing is returned.
  Otherwise a block of \<^verbatim>\<open>BUF_SIZE + ALIGN_SIZE\<close> bytes is live at \<open>a\<close>, the pointer
  returned is a multiple of 8, it and the \<^verbatim>\<open>BUF_SIZE\<close> bytes behind it lie within that
  block, and the capacity reported is \<^verbatim>\<open>BUF_SIZE\<close>, which is 32 KiB.
\<close>

theorem buffer_request_aligned:
  assumes "a \<noteq> 0 \<longrightarrow> unat a + unat (BUF_SIZE + ALIGN_SIZE) \<le> 2 ^ 64"
  shows "(a = 0 \<longrightarrow> InternalBufferRequested a s = Inl Exit)
   \<and> (a \<noteq> 0 \<longrightarrow>
        (\<exists>buffer s'. InternalBufferRequested a s = Inr ((buffer, BUF_SIZE, 0), s')
           \<and> buffer AND 7 = 0 \<and> unat buffer mod 8 = 0
           \<and> blocks s' a = Some (BUF_SIZE + ALIGN_SIZE)
           \<and> unat a \<le> unat buffer
           \<and> unat buffer + unat BUF_SIZE \<le> unat a + unat (BUF_SIZE + ALIGN_SIZE)))
   \<and> unat BUF_SIZE = 32 * 1024 \<and> unat (BUF_SIZE + ALIGN_SIZE) = 32 * 1024 + 8"
proof (intro conjI impI)
  assume "a = 0"
  then show "InternalBufferRequested a s = Inl Exit"
    by (simp add: InternalBufferRequested_def malloc_def)
next
  show sz: "unat BUF_SIZE = 32 * 1024" by (simp add: BUF_SIZE_def)
  show sz': "unat (BUF_SIZE + ALIGN_SIZE) = 32 * 1024 + 8"
    by (simp add: BUF_SIZE_def ALIGN_SIZE_def)
  assume nz: "a \<noteq> 0"
  with assms sz' have "unat a + 8 < 2 ^ 64" by simp
  then have al: "unat (ALIGN_BUFFER a ALIGN_SIZE) =
           (if unat a mod 8 = 0 then unat a else unat a + 8 - unat a mod 8)"
    by (rule ALIGN_BUFFER_unat)
  let ?b = "ALIGN_BUFFER a ALIGN_SIZE"
  let ?s = "s\<lparr>blocks := (blocks s)(a \<mapsto> BUF_SIZE + ALIGN_SIZE)\<rparr>"
  have r: "InternalBufferRequested a s = Inr ((?b, BUF_SIZE, 0), ?s)"
    using nz by (simp add: InternalBufferRequested_def malloc_def)
  have m: "unat ?b mod 8 = 0" using al by (simp split: if_splits) presburger
  then have m': "?b AND 7 = 0" by (simp only: and7_zero)
  have lo: "unat a \<le> unat ?b" using al by (simp split: if_splits)
  have "unat ?b \<le> unat a + 8" using al by (simp split: if_splits)
  then have hi: "unat ?b + unat BUF_SIZE \<le> unat a + unat (BUF_SIZE + ALIGN_SIZE)"
    by (simp only: sz sz')
  have bl: "blocks ?s a = Some (BUF_SIZE + ALIGN_SIZE)" by simp
  show "\<exists>buffer s'. InternalBufferRequested a s = Inr ((buffer, BUF_SIZE, 0), s')
           \<and> buffer AND 7 = 0 \<and> unat buffer mod 8 = 0
           \<and> blocks s' a = Some (BUF_SIZE + ALIGN_SIZE)
           \<and> unat a \<le> unat buffer
           \<and> unat buffer + unat BUF_SIZE \<le> unat a + unat (BUF_SIZE + ALIGN_SIZE)"
    by (intro exI [of _ ?b] exI [of _ ?s] conjI r m m' lo hi bl)
qed

theorem buffer_request_aligned_witness:
  "InternalBufferRequested 0 (Tracer pv_ok 0) = Inl Exit
   \<and> (4097 :: ptr) \<noteq> 0
   \<and> unat (4097 :: ptr) + unat (BUF_SIZE + ALIGN_SIZE) \<le> 2 ^ 64
   \<and> (\<exists>buffer s'. InternalBufferRequested 4097 (Tracer pv_ok 0) = Inr ((buffer, BUF_SIZE, 0), s')
           \<and> buffer AND 7 = 0 \<and> unat buffer mod 8 = 0
           \<and> blocks s' 4097 = Some (BUF_SIZE + ALIGN_SIZE)
           \<and> unat (4097 :: ptr) \<le> unat buffer
           \<and> unat buffer + unat BUF_SIZE \<le> unat (4097 :: ptr) + unat (BUF_SIZE + ALIGN_SIZE))"
proof -
  have h: "unat (4097 :: ptr) + unat (BUF_SIZE + ALIGN_SIZE) \<le> 2 ^ 64"
    by (simp add: BUF_SIZE_def ALIGN_SIZE_def)
  have z: "(0 :: ptr) \<noteq> 0 \<longrightarrow> unat (0 :: ptr) + unat (BUF_SIZE + ALIGN_SIZE) \<le> 2 ^ 64"
    by simp
  from buffer_request_aligned [of 0 "Tracer pv_ok 0", OF z]
  have "InternalBufferRequested 0 (Tracer pv_ok 0) = Inl Exit" by simp
  moreover have nz: "(4097 :: ptr) \<noteq> 0" by simp
  moreover have "\<exists>buffer s'. InternalBufferRequested 4097 (Tracer pv_ok 0) = Inr ((buffer, BUF_SIZE, 0), s')
           \<and> buffer AND 7 = 0 \<and> unat buffer mod 8 = 0
           \<and> blocks s' 4097 = Some (BUF_SIZE + ALIGN_SIZE)
           \<and> unat (4097 :: ptr) \<le> unat buffer
           \<and> unat buffer + unat BUF_SIZE \<le> unat (4097 :: ptr) + unat (BUF_SIZE + ALIGN_SIZE)"
  proof -
    from h have "(4097 :: ptr) \<noteq> 0 \<longrightarrow>
        unat (4097 :: ptr) + unat (BUF_SIZE + ALIGN_SIZE) \<le> 2 ^ 64" by blast
    from buffer_request_aligned [of 4097 "Tracer pv_ok 0", OF this] nz
    show ?thesis by blast
  qed
  ultimately show ?thesis using h by blast
qed

end
